theory Spec2Isabelle
  imports Main "HOL-Library.AList"
begin

section \<open>Values and the cryptographic library\<close>

text \<open>
  Python \<open>bytes\<close> are lists of 8-bit characters; Python \<open>str\<close> values are
  well-formed Unicode text, so that \<open>str.encode('utf-8')\<close> is total on them.
  A Python \<open>dict\<close> is an association list with distinct keys, updated with
  \<open>AList.update\<close> (an existing key keeps its position, a new one goes last).
\<close>

type_synonym bytes = "char list"

datatype public_key = PublicKey bytes
datatype private_key = PrivateKey bytes

datatype pyvalue =
    PStr string
  | PBytes bytes
  | PInt int
  | PList "pyvalue list"
  | PDict "(string \<times> pyvalue) list"

text \<open>
  The functions of the \<open>cryptography\<close>, \<open>base64\<close> and \<open>json\<close> packages
  that \<open>encryption.py\<close> and \<open>data_manager.py\<close> call. They are not code of the
  repository, so they are parameters of the model. A call that raises returns
  \<open>None\<close>. Randomness and the clock read inside the library are explicit
  arguments (\<open>seed\<close>, \<open>iv\<close>).
\<close>

record crypto =
  utf8_encode :: "string \<Rightarrow> bytes"
  utf8_decode :: "bytes \<Rightarrow> string option"
  b64encode :: "bytes \<Rightarrow> string"
  b64decode :: "string \<Rightarrow> bytes option"
  fernet_generate_key :: "bytes \<Rightarrow> bytes"
  fernet_encrypt :: "bytes \<Rightarrow> bytes \<Rightarrow> bytes \<Rightarrow> bytes option"
  fernet_decrypt :: "bytes \<Rightarrow> bytes \<Rightarrow> bytes option"
  oaep_encrypt :: "public_key \<Rightarrow> bytes \<Rightarrow> bytes \<Rightarrow> bytes option"
  oaep_decrypt :: "private_key \<Rightarrow> bytes \<Rightarrow> bytes option"
  load_pem_public_key :: "bytes \<Rightarrow> public_key option"
  json_dumps :: "pyvalue \<Rightarrow> string option"
  json_loads :: "string \<Rightarrow> pyvalue option"

text \<open>The randomness one call of \<open>encrypt_message\<close> draws.\<close>

record entropy =
  key_seed :: bytes
  fernet_iv :: bytes
  oaep_seed :: bytes

text \<open>What the library documents about itself: the codecs invert, a Fernet key
  opens what it sealed, and a private key unwraps what its public key wrapped.\<close>

definition fernet_key_ok :: "crypto \<Rightarrow> bytes \<Rightarrow> bool" where
  "fernet_key_ok L k \<longleftrightarrow>
     (\<forall>iv p. \<exists>c. fernet_encrypt L k iv p = Some c \<and> fernet_decrypt L k c = Some p)"

definition codecs_ok :: "crypto \<Rightarrow> bool" where
  "codecs_ok L \<longleftrightarrow>
     (\<forall>s. utf8_decode L (utf8_encode L s) = Some s) \<and>
     (\<forall>b. b64decode L (b64encode L b) = Some b)"

definition keypair :: "crypto \<Rightarrow> public_key \<Rightarrow> private_key \<Rightarrow> bool" where
  "keypair L pk sk \<longleftrightarrow>
     (\<forall>r seed. \<exists>c. oaep_encrypt L pk r (fernet_generate_key L seed) = Some c \<and>
        oaep_decrypt L sk c = Some (fernet_generate_key L seed))"

definition library_ok :: "crypto \<Rightarrow> bool" where
  "library_ok L \<longleftrightarrow> codecs_ok L \<and> (\<forall>seed. fernet_key_ok L (fernet_generate_key L seed))"

section \<open>Client: encryption.py\<close>

datatype content =
    Raw bytes
  | IntText int
  | JsonList "string list"
  | JsonKeys "string list"

type_synonym filesystem = "string \<Rightarrow> content option"

record envelope =
  key :: string
  message :: string

record encryption_manager =
  symmetric_key :: bytes
  private_key :: private_key
  public_key :: public_key
  friend_public_keys :: "(string \<times> public_key) list"

definition load_friend_public_key ::
  "crypto \<Rightarrow> filesystem \<Rightarrow> encryption_manager \<Rightarrow> string \<Rightarrow> bool \<times> encryption_manager" where
  "load_friend_public_key L fs em friend_username =
     (case fs (''UserData/Keys/friends/'' @ friend_username @ ''.pem'') of
        Some (Raw key_data) \<Rightarrow>
          (case load_pem_public_key L key_data of
             Some pk \<Rightarrow>
               (True, em\<lparr>friend_public_keys :=
                          AList.update friend_username pk (friend_public_keys em)\<rparr>)
           | None \<Rightarrow> (False, em))
      | _ \<Rightarrow> (False, em))"

definition encrypt_message ::
  "crypto \<Rightarrow> filesystem \<Rightarrow> encryption_manager \<Rightarrow> string \<Rightarrow> string \<Rightarrow> entropy
     \<Rightarrow> envelope option \<times> encryption_manager" where
  "encrypt_message L fs em msg recipient_username ent =
     (let (loaded, em1) =
            (if map_of (friend_public_keys em) recipient_username \<noteq> None then (True, em)
             else load_friend_public_key L fs em recipient_username)
      in if \<not> loaded then (None, em1)
         else
           (let message_key = fernet_generate_key L (key_seed ent) in
            case fernet_encrypt L message_key (fernet_iv ent) (utf8_encode L msg) of
              None \<Rightarrow> (None, em1)
            | Some encrypted_message \<Rightarrow>
                (case map_of (friend_public_keys em1) recipient_username of
                   None \<Rightarrow> (None, em1)
                 | Some pk \<Rightarrow>
                     (case oaep_encrypt L pk (oaep_seed ent) message_key of
                        None \<Rightarrow> (None, em1)
                      | Some encrypted_key \<Rightarrow>
                          (Some \<lparr>key = b64encode L encrypted_key,
                                 message = b64encode L encrypted_message\<rparr>, em1)))))"

definition decrypt_message :: "crypto \<Rightarrow> encryption_manager \<Rightarrow> envelope \<Rightarrow> string option" where
  "decrypt_message L em encrypted_data =
     (case b64decode L (key encrypted_data) of
        None \<Rightarrow> None
      | Some encrypted_key \<Rightarrow>
          (case b64decode L (message encrypted_data) of
             None \<Rightarrow> None
           | Some encrypted_message \<Rightarrow>
               (case oaep_decrypt L (private_key em) encrypted_key of
                  None \<Rightarrow> None
                | Some message_key \<Rightarrow>
                    (case fernet_decrypt L message_key encrypted_message of
                       None \<Rightarrow> None
                     | Some decrypted \<Rightarrow> utf8_decode L decrypted))))"

definition encrypt_data_for_storage ::
  "crypto \<Rightarrow> encryption_manager \<Rightarrow> pyvalue \<Rightarrow> bytes \<Rightarrow> string option" where
  "encrypt_data_for_storage L em data iv =
     (let payload =
            (case data of
               PStr s \<Rightarrow> Some (utf8_encode L s)
             | PDict _ \<Rightarrow> map_option (utf8_encode L) (json_dumps L data)
             | PList _ \<Rightarrow> map_option (utf8_encode L) (json_dumps L data)
             | PBytes b \<Rightarrow> Some b
             | PInt _ \<Rightarrow> None)
      in case payload of
           None \<Rightarrow> None
         | Some d \<Rightarrow>
             (case fernet_encrypt L (symmetric_key em) iv d of
                None \<Rightarrow> None
              | Some encrypted_data \<Rightarrow> Some (b64encode L encrypted_data)))"

definition decrypt_data_from_storage ::
  "crypto \<Rightarrow> encryption_manager \<Rightarrow> string \<Rightarrow> bytes option" where
  "decrypt_data_from_storage L em encrypted_data =
     (case b64decode L encrypted_data of
        None \<Rightarrow> None
      | Some token \<Rightarrow> fernet_decrypt L (symmetric_key em) token)"

text \<open>
  \<open>encrypt_group_message\<close>: the loop over \<open>group_members\<close>; \<open>rnd i\<close> is the
  randomness of the \<open>i\<close>-th call of \<open>encrypt_message\<close>. The first member whose
  encryption returns \<open>None\<close> ends the call with \<open>None\<close>.
\<close>

fun encrypt_group_loop ::
  "crypto \<Rightarrow> filesystem \<Rightarrow> encryption_manager \<Rightarrow> string \<Rightarrow> (nat \<Rightarrow> entropy) \<Rightarrow> nat
     \<Rightarrow> string list \<Rightarrow> (string \<times> envelope) list
     \<Rightarrow> (string \<times> envelope) list option \<times> encryption_manager" where
  "encrypt_group_loop L fs em msg rnd i [] encrypted_messages = (Some encrypted_messages, em)"
| "encrypt_group_loop L fs em msg rnd i (member # rest) encrypted_messages =
     (case encrypt_message L fs em msg member (rnd i) of
        (Some encrypted_message, em1) \<Rightarrow>
          encrypt_group_loop L fs em1 msg rnd (Suc i) rest
            (AList.update member encrypted_message encrypted_messages)
      | (None, em1) \<Rightarrow> (None, em1))"

definition encrypt_group_message ::
  "crypto \<Rightarrow> filesystem \<Rightarrow> encryption_manager \<Rightarrow> string \<Rightarrow> string list \<Rightarrow> (nat \<Rightarrow> entropy)
     \<Rightarrow> (string \<times> envelope) list option \<times> encryption_manager" where
  "encrypt_group_message L fs em msg group_members rnd =
     encrypt_group_loop L fs em msg rnd 0 group_members []"

text \<open>The public key \<open>encrypt_message\<close> ends up using for a user: the cached
  one, else the one loaded from the user's key file.\<close>

definition available_key ::
  "crypto \<Rightarrow> filesystem \<Rightarrow> encryption_manager \<Rightarrow> string \<Rightarrow> public_key option" where
  "available_key L fs em u =
     (case map_of (friend_public_keys em) u of
        Some pk \<Rightarrow> Some pk
      | None \<Rightarrow>
          (case load_friend_public_key L fs em u of
             (True, em1) \<Rightarrow> map_of (friend_public_keys em1) u
           | (False, _) \<Rightarrow> None))"

text \<open>Two ways of reading the source, used to state what it computes: the key
  a user's key file yields, and the envelope \<open>encrypt_message\<close> builds once the
  recipient's key is found (or not).\<close>

definition file_key :: "crypto \<Rightarrow> filesystem \<Rightarrow> string \<Rightarrow> public_key option" where
  "file_key L fs u =
     (case fs (''UserData/Keys/friends/'' @ u @ ''.pem'') of
        Some (Raw d) \<Rightarrow> load_pem_public_key L d | _ \<Rightarrow> None)"

definition seal_for :: "crypto \<Rightarrow> public_key option \<Rightarrow> string \<Rightarrow> entropy \<Rightarrow> envelope option" where
  "seal_for L pko m ent =
     (case pko of None \<Rightarrow> None | Some pk \<Rightarrow>
        (case fernet_encrypt L (fernet_generate_key L (key_seed ent)) (fernet_iv ent) (utf8_encode L m) of
           None \<Rightarrow> None
         | Some c \<Rightarrow>
             (case oaep_encrypt L pk (oaep_seed ent) (fernet_generate_key L (key_seed ent)) of
                None \<Rightarrow> None
              | Some w \<Rightarrow> Some \<lparr>key = b64encode L w, message = b64encode L c\<rparr>)))"

subsection \<open>A small instance of the library\<close>

text \<open>
  A library instance small enough to evaluate: codecs are the identity, sealing
  under a key prefixes the key, opening checks and strips the prefix. JSON text of
  a list of strings is each string followed by a semicolon.
\<close>

definition demo_seal :: "bytes \<Rightarrow> bytes \<Rightarrow> bytes option" where
  "demo_seal k p = Some (k @ p)"

definition demo_open :: "bytes \<Rightarrow> bytes \<Rightarrow> bytes option" where
  "demo_open k c = (if take (length k) c = k then Some (drop (length k) c) else None)"

fun demo_split :: "string \<Rightarrow> string \<Rightarrow> string list" where
  "demo_split acc [] = []"
| "demo_split acc (c # cs) =
     (if c = CHR '';'' then rev acc # demo_split [] cs else demo_split (c # acc) cs)"

fun demo_str :: "pyvalue \<Rightarrow> string option" where
  "demo_str (PStr s) = (if CHR '';'' \<in> set s then None else Some s)"
| "demo_str _ = None"

definition demo_dumps :: "pyvalue \<Rightarrow> string option" where
  "demo_dumps v =
     (case v of
        PList xs \<Rightarrow>
          (if list_all (\<lambda>x. demo_str x \<noteq> None) xs
           then Some (concat (map (\<lambda>x. the (demo_str x) @ [CHR '';'']) xs))
           else None)
      | _ \<Rightarrow> None)"

definition demo_loads :: "string \<Rightarrow> pyvalue option" where
  "demo_loads s = Some (PList (map PStr (demo_split [] s)))"

definition demo_crypto :: crypto where
  "demo_crypto =
     \<lparr>utf8_encode = (\<lambda>s. s), utf8_decode = Some,
      b64encode = (\<lambda>b. b), b64decode = Some,
      fernet_generate_key = (\<lambda>seed. seed),
      fernet_encrypt = (\<lambda>k iv p. demo_seal k p),
      fernet_decrypt = demo_open,
      oaep_encrypt = (\<lambda>pk r m. case pk of PublicKey n \<Rightarrow> demo_seal n m),
      oaep_decrypt = (\<lambda>sk c. case sk of PrivateKey n \<Rightarrow> demo_open n c),
      load_pem_public_key = (\<lambda>b. Some (PublicKey b)),
      json_dumps = demo_dumps, json_loads = demo_loads\<rparr>"

definition demo_em :: "string \<Rightarrow> (string \<times> public_key) list \<Rightarrow> encryption_manager" where
  "demo_em name cache =
     \<lparr>symmetric_key = ''S-'' @ name, private_key = PrivateKey name,
      public_key = PublicKey name, friend_public_keys = cache\<rparr>"

definition demo_entropy :: "nat \<Rightarrow> entropy" where
  "demo_entropy i = \<lparr>key_seed = replicate (Suc i) CHR ''k'', fernet_iv = ''iv'', oaep_seed = ''r''\<rparr>"

definition demo_fs :: filesystem where
  "demo_fs = [''UserData/Keys/friends/carol.pem'' \<mapsto> Raw ''carol'']"

definition alice_em :: encryption_manager where
  "alice_em = demo_em ''alice'' [(''bob'', PublicKey ''bob'')]"

section \<open>Relay: database.py\<close>

text \<open>
  A table is the list of its rows in rowid order. Every table's \<open>id\<close> is
  \<open>INTEGER PRIMARY KEY AUTOINCREMENT\<close>: a new row gets one more than the largest
  id the table ever held, kept in the \<open>seq_\<close> counters. A \<open>SELECT\<close> on one
  table whose condition a \<open>UNIQUE\<close> column decides finds at most one row. All
  requests share one connection, so the state is what that connection sees, a
  statement not yet committed included. \<open>time.time()\<close> is the argument \<open>now\<close>.
\<close>

datatype status = Pending | Accepted | Rejected

record user_row =
  u_id :: int
  u_username :: string
  u_email :: string
  u_password_hash :: string
  u_public_key :: string
  u_created_at :: int
  u_last_login :: "int option"

record token_row =
  tok_id :: int
  tok_user_id :: int
  tok_token :: string
  tok_created_at :: int
  tok_expires_at :: int

record friend_row =
  f_id :: int
  f_user_id :: int
  f_friend_id :: int
  f_status :: status
  f_created_at :: int
  f_updated_at :: "int option"

record group_row =
  g_id :: int
  g_name :: string
  g_created_by :: int
  g_created_at :: int

record member_row =
  gm_id :: int
  gm_group_id :: int
  gm_user_id :: int
  gm_joined_at :: int

record message_row =
  m_id :: int
  m_sender_id :: int
  m_recipient_id :: int
  m_encrypted_key :: string
  m_encrypted_content :: string
  m_is_group :: bool
  m_timestamp :: int
  m_delivered :: bool

record database =
  t_users :: "user_row list"
  t_auth_tokens :: "token_row list"
  t_friends :: "friend_row list"
  t_groups :: "group_row list"
  t_group_members :: "member_row list"
  t_messages :: "message_row list"
  seq_users :: int
  seq_auth_tokens :: int
  seq_friends :: int
  seq_messages :: int

text \<open>
  What a statement raises: \<open>sqlite3.IntegrityError\<close> on a violated constraint,
  \<open>sqlite3.OperationalError\<close> when it binds more parameters than the engine
  allows, \<open>OverflowError\<close> when a bound Python integer is not a signed 64-bit
  integer.
\<close>

datatype sqlite_error = IntegrityError | OperationalError | OverflowError

definition int64 :: "int \<Rightarrow> bool" where
  "int64 n \<longleftrightarrow> - (2 ^ 63) \<le> n \<and> n < 2 ^ 63"

text \<open>\<open>SQLITE_MAX_VARIABLE_NUMBER\<close>, at the default of the engine.\<close>

definition max_variable_number :: nat where
  "max_variable_number = 32766"

definition create_user ::
  "database \<Rightarrow> string \<Rightarrow> string \<Rightarrow> string \<Rightarrow> string \<Rightarrow> int \<Rightarrow> int \<times> database" where
  "create_user db username email password_hash pubkey now =
     (if \<exists>u \<in> set (t_users db). u_username u = username \<or> u_email u = email
      then (0, db)
      else
        (let new_id = seq_users db + 1 in
         (new_id,
          db\<lparr>t_users := t_users db @
                 [\<lparr>u_id = new_id, u_username = username, u_email = email,
                   u_password_hash = password_hash, u_public_key = pubkey,
                   u_created_at = now, u_last_login = None\<rparr>],
             seq_users := new_id\<rparr>)))"

definition create_auth_token ::
  "database \<Rightarrow> int \<Rightarrow> string \<Rightarrow> int \<Rightarrow> int \<Rightarrow> bool \<times> database" where
  "create_auth_token db user_id token expires_in now =
     (let expires_at = now + expires_in in
      if \<exists>t \<in> set (t_auth_tokens db). tok_token t = token
      then (False, db)
      else
        (let new_id = seq_auth_tokens db + 1 in
         (True,
          db\<lparr>t_auth_tokens := t_auth_tokens db @
                 [\<lparr>tok_id = new_id, tok_user_id = user_id, tok_token = token,
                   tok_created_at = now, tok_expires_at = expires_at\<rparr>],
             seq_auth_tokens := new_id\<rparr>)))"

definition validate_auth_token :: "database \<Rightarrow> string \<Rightarrow> int \<Rightarrow> int option" where
  "validate_auth_token db token now =
     (case find (\<lambda>t. tok_token t = token \<and> tok_expires_at t > now) (t_auth_tokens db) of
        Some result \<Rightarrow> Some (tok_user_id result)
      | None \<Rightarrow> None)"

definition delete_auth_token :: "database \<Rightarrow> string \<Rightarrow> bool \<times> database" where
  "delete_auth_token db token =
     (\<exists>t \<in> set (t_auth_tokens db). tok_token t = token,
      db\<lparr>t_auth_tokens := filter (\<lambda>t. tok_token t \<noteq> token) (t_auth_tokens db)\<rparr>)"

text \<open>\<open>INSERT INTO friends\<close> under \<open>UNIQUE(user_id, friend_id)\<close>.\<close>

definition insert_friend ::
  "database \<Rightarrow> int \<Rightarrow> int \<Rightarrow> status \<Rightarrow> int \<Rightarrow> sqlite_error + database" where
  "insert_friend db user_id friend_id st now =
     (if \<exists>f \<in> set (t_friends db). f_user_id f = user_id \<and> f_friend_id f = friend_id
      then Inl IntegrityError
      else
        (let new_id = seq_friends db + 1 in
         Inr (db\<lparr>t_friends := t_friends db @
                    [\<lparr>f_id = new_id, f_user_id = user_id, f_friend_id = friend_id,
                      f_status = st, f_created_at = now, f_updated_at = None\<rparr>],
                 seq_friends := new_id\<rparr>)))"

definition update_friend_status :: "database \<Rightarrow> int \<Rightarrow> status \<Rightarrow> int \<Rightarrow> database" where
  "update_friend_status db row_id st now =
     db\<lparr>t_friends :=
          map (\<lambda>f. if f_id f = row_id then f\<lparr>f_status := st, f_updated_at := Some now\<rparr> else f)
            (t_friends db)\<rparr>"

text \<open>
  \<open>add_friend_request\<close> looks for a row in either direction with one query,
  \<open>(user_id = ? AND friend_id = ?) OR (user_id = ? AND friend_id = ?)\<close>, and takes
  \<open>fetchone\<close>. The engine answers the two terms one after the other through the
  index of \<open>UNIQUE(user_id, friend_id)\<close>: the row from the user to the friend
  comes first when there is one, else the row from the friend to the user.
\<close>

definition add_friend_request ::
  "database \<Rightarrow> int \<Rightarrow> string \<Rightarrow> int \<Rightarrow> (sqlite_error + bool \<times> string) \<times> database" where
  "add_friend_request db user_id friend_username now =
     (case find (\<lambda>u. u_username u = friend_username) (t_users db) of
        None \<Rightarrow> (Inr (False, ''User not found''), db)
      | Some friend \<Rightarrow>
          (let friend_id = u_id friend in
           if user_id = friend_id
           then (Inr (False, ''You cannot add yourself as a friend''), db)
           else
             (case (case find (\<lambda>f. f_user_id f = user_id \<and> f_friend_id f = friend_id)
                          (t_friends db) of
                      Some forward \<Rightarrow> Some forward
                    | None \<Rightarrow>
                        find (\<lambda>f. f_user_id f = friend_id \<and> f_friend_id f = user_id)
                          (t_friends db)) of
                Some existing \<Rightarrow>
                  (case f_status existing of
                     Accepted \<Rightarrow> (Inr (False, ''Already friends''), db)
                   | Pending \<Rightarrow> (Inr (False, ''Friend request already pending''), db)
                   | Rejected \<Rightarrow>
                       (Inr (True, ''Friend request sent''),
                        update_friend_status db (f_id existing) Pending now))
              | None \<Rightarrow>
                  (case insert_friend db user_id friend_id Pending now of
                     Inl e \<Rightarrow> (Inl e, db)
                   | Inr db1 \<Rightarrow> (Inr (True, ''Friend request sent''), db1)))))"

definition respond_to_friend_request ::
  "database \<Rightarrow> int \<Rightarrow> int \<Rightarrow> bool \<Rightarrow> int \<Rightarrow> (sqlite_error + bool \<times> string) \<times> database" where
  "respond_to_friend_request db request_id user_id accept now =
     (case find (\<lambda>f. f_id f = request_id \<and> f_friend_id f = user_id) (t_friends db) of
        None \<Rightarrow> (Inr (False, ''Friend request not found''), db)
      | Some request \<Rightarrow>
          (let st = (if accept then Accepted else Rejected);
               db1 = update_friend_status db request_id st now
           in if accept
              then
                (case insert_friend db1 user_id (f_user_id request) Accepted now of
                   Inl e \<Rightarrow> (Inl e, db1)
                 | Inr db2 \<Rightarrow> (Inr (True, ''Friend request accepted''), db2))
              else (Inr (True, ''Friend request rejected''), db1)))"

definition save_message ::
  "database \<Rightarrow> int \<Rightarrow> int \<Rightarrow> string \<Rightarrow> string \<Rightarrow> bool \<Rightarrow> int \<Rightarrow> int \<times> database" where
  "save_message db sender_id recipient_id encrypted_key encrypted_content is_group now =
     (let new_id = seq_messages db + 1 in
      (new_id,
       db\<lparr>t_messages := t_messages db @
              [\<lparr>m_id = new_id, m_sender_id = sender_id, m_recipient_id = recipient_id,
                m_encrypted_key = encrypted_key, m_encrypted_content = encrypted_content,
                m_is_group = is_group, m_timestamp = now, m_delivered = False\<rparr>],
          seq_messages := new_id\<rparr>))"

text \<open>The rows \<open>get_messages\<close> and \<open>get_group_messages\<close> return.\<close>

record direct_message =
  dm_id :: int
  dm_sender_id :: int
  dm_sender :: string
  dm_encrypted_key :: string
  dm_encrypted_content :: string
  dm_timestamp :: int
  dm_is_group :: bool

record group_message =
  gmsg_id :: int
  gmsg_sender_id :: int
  gmsg_sender :: string
  gmsg_group_id :: int
  gmsg_group_name :: string
  gmsg_encrypted_key :: string
  gmsg_encrypted_content :: string
  gmsg_timestamp :: int

definition direct_row :: "message_row \<Rightarrow> user_row \<Rightarrow> direct_message" where
  "direct_row m u =
     \<lparr>dm_id = m_id m, dm_sender_id = m_sender_id m, dm_sender = u_username u,
      dm_encrypted_key = m_encrypted_key m, dm_encrypted_content = m_encrypted_content m,
      dm_timestamp = m_timestamp m, dm_is_group = m_is_group m\<rparr>"

definition group_row_of :: "message_row \<Rightarrow> user_row \<Rightarrow> group_row \<Rightarrow> group_message" where
  "group_row_of m u g =
     \<lparr>gmsg_id = m_id m, gmsg_sender_id = m_sender_id m, gmsg_sender = u_username u,
      gmsg_group_id = g_id g, gmsg_group_name = g_name g,
      gmsg_encrypted_key = m_encrypted_key m, gmsg_encrypted_content = m_encrypted_content m,
      gmsg_timestamp = m_timestamp m\<rparr>"

text \<open>
  The two \<open>SELECT\<close>s with joins. \<open>direct_join\<close> and \<open>group_join\<close> are the
  joined rows that pass the \<open>WHERE\<close> clause, as the nested loops of the \<open>FROM\<close>
  clause in the order written yield them, each table in rowid order. SQL leaves
  the plan to the engine, and with it the order in which the rows reach the
  sorter: \<open>plan\<close> rearranges the rows into that order (it is the identity when
  the engine runs the loops as written). \<open>ORDER BY m.timestamp ASC\<close> then sorts
  on the timestamp alone, keeping rows of equal timestamp in the order they came.
\<close>

definition direct_join :: "database \<Rightarrow> int \<Rightarrow> int \<Rightarrow> direct_message list" where
  "direct_join db user_id since_timestamp =
     concat (map (\<lambda>m. concat (map (\<lambda>u.
         if m_sender_id m = u_id u \<and> m_recipient_id m = user_id \<and>
            m_timestamp m > since_timestamp \<and> \<not> m_is_group m
         then [direct_row m u] else []) (t_users db))) (t_messages db))"

definition group_join :: "database \<Rightarrow> int \<Rightarrow> int \<Rightarrow> group_message list" where
  "group_join db user_id since_timestamp =
     concat (map (\<lambda>m. concat (map (\<lambda>u. concat (map (\<lambda>g. concat (map (\<lambda>gm.
         if m_sender_id m = u_id u \<and> m_recipient_id m = g_id g \<and> g_id g = gm_group_id gm \<and>
            gm_user_id gm = user_id \<and> m_timestamp m > since_timestamp \<and> m_is_group m
         then [group_row_of m u g] else [])
       (t_group_members db))) (t_groups db))) (t_users db))) (t_messages db))"

definition get_messages ::
  "(direct_message list \<Rightarrow> direct_message list) \<Rightarrow> database \<Rightarrow> int \<Rightarrow> int
     \<Rightarrow> sqlite_error + direct_message list \<times> database" where
  "get_messages plan db user_id since_timestamp =
     (if \<not> int64 user_id \<or> \<not> int64 since_timestamp then Inl OverflowError
      else
        (let messages =
               sort_key dm_timestamp (plan (direct_join db user_id since_timestamp))
         in if messages \<noteq> []
            then
              (let message_ids = map dm_id messages in
               if length message_ids > max_variable_number then Inl OperationalError
               else
                 Inr (messages,
                      db\<lparr>t_messages :=
                           map (\<lambda>m. if m_id m \<in> set message_ids
                                     then m\<lparr>m_delivered := True\<rparr> else m)
                             (t_messages db)\<rparr>))
            else Inr (messages, db)))"

definition get_group_messages ::
  "(group_message list \<Rightarrow> group_message list) \<Rightarrow> database \<Rightarrow> int \<Rightarrow> int
     \<Rightarrow> sqlite_error + group_message list" where
  "get_group_messages plan db user_id since_timestamp =
     (if \<not> int64 user_id \<or> \<not> int64 since_timestamp then Inl OverflowError
      else Inr (sort_key gmsg_timestamp (plan (group_join db user_id since_timestamp))))"

section \<open>Relay: server.py\<close>

datatype http_error = HTTPException int string

text \<open>\<open>str.split(sep)\<close> for a one-character separator.\<close>

fun split_char :: "char \<Rightarrow> string \<Rightarrow> string list" where
  "split_char d [] = [[]]"
| "split_char d (c # cs) =
     (if c = d then [] # split_char d cs
      else (case split_char d cs of
              w # ws \<Rightarrow> (c # w) # ws
            | [] \<Rightarrow> [[c]]))"

definition startswith :: "string \<Rightarrow> string \<Rightarrow> bool" where
  "startswith s prefix \<longleftrightarrow> take (length prefix) s = prefix"

definition get_current_user :: "database \<Rightarrow> string option \<Rightarrow> int \<Rightarrow> http_error + int" where
  "get_current_user db authorization now =
     (case authorization of
        None \<Rightarrow> Inl (HTTPException 401 ''Invalid authentication credentials'')
      | Some auth \<Rightarrow>
          if auth = [] \<or> \<not> startswith auth ''Bearer ''
          then Inl (HTTPException 401 ''Invalid authentication credentials'')
          else
            (case split_char CHR '' '' auth of
               _ # token # _ \<Rightarrow>
                 (case validate_auth_token db token now of
                    None \<Rightarrow> Inl (HTTPException 401 ''Invalid or expired token'')
                  | Some user_id \<Rightarrow>
                      if user_id = 0 then Inl (HTTPException 401 ''Invalid or expired token'')
                      else Inr user_id)
             | _ \<Rightarrow> Inl (HTTPException 500 ''IndexError'')))"

text \<open>\<open>hash_password\<close>: \<open>kdf\<close> is \<open>hashlib.pbkdf2_hmac\<close> with the fixed
  algorithm and iteration count, \<open>salt\<close> the 32 bytes of \<open>os.urandom\<close>.\<close>

definition hash_password :: "crypto \<Rightarrow> (bytes \<Rightarrow> bytes \<Rightarrow> bytes) \<Rightarrow> string \<Rightarrow> bytes \<Rightarrow> string" where
  "hash_password L kdf password salt = b64encode L (salt @ kdf (utf8_encode L password) salt)"

record register_response =
  reg_success :: bool
  reg_message :: string
  reg_token :: string
  reg_user_id :: int

text \<open>\<open>register\<close>: \<open>token\<close> is the value \<open>generate_token()\<close> would draw.\<close>

definition register ::
  "crypto \<Rightarrow> (bytes \<Rightarrow> bytes \<Rightarrow> bytes) \<Rightarrow> database \<Rightarrow> string \<Rightarrow> string \<Rightarrow> string \<Rightarrow> string
     \<Rightarrow> bytes \<Rightarrow> string \<Rightarrow> int \<Rightarrow> (http_error + register_response) \<times> database" where
  "register L kdf db username password email pubkey salt token now =
     (let password_hash = hash_password L kdf password salt;
          (user_id, db1) = create_user db username email password_hash pubkey now
      in if user_id = 0
         then (Inl (HTTPException 400 ''Username or email already exists''), db1)
         else
           (let (_, db2) = create_auth_token db1 user_id token 604800 now in
            (Inr \<lparr>reg_success = True, reg_message = ''Registration successful'',
                  reg_token = token, reg_user_id = user_id\<rparr>, db2)))"

section \<open>Client: data_manager.py\<close>

text \<open>
  The client's state: the \<open>DataManager\<close> fields, the \<open>EncryptionManager\<close>, the
  token of \<open>ServerAPI\<close>, the chat display, and the files. A file holds the value
  written to it (\<open>IntText n\<close> is \<open>str(n)\<close>, \<open>JsonList\<close> the JSON text of a list
  of strings, \<open>JsonKeys\<close> the keys of a JSON object). A write to a path that is
  not \<open>writable\<close> raises. Every \<open>int(time.time())\<close> reading is an argument.
  Histories are lists of strings; a backup payload that decodes to another JSON
  value has no counterpart in the state type and ends a restore like a payload
  that does not parse.
\<close>

record data_manager =
  message_history :: "(string \<times> string list) list"
  friends :: "string list"
  groups :: "string list"
  last_sync_time :: int

record client =
  encryption_manager :: encryption_manager
  data_manager :: data_manager
  auth_token :: "string option"
  current_chat :: "string option"
  chat_area :: "string list"
  notifications :: "string list"
  files :: filesystem
  writable :: "string \<Rightarrow> bool"

record backup_data =
  bk_friends :: "string list option"
  bk_groups :: "string list option"
  bk_message_history :: "(string \<times> string) list option"
  bk_timestamp :: "int option"

definition write_file :: "client \<Rightarrow> string \<Rightarrow> content \<Rightarrow> client option" where
  "write_file c path data =
     (if writable c path then Some (c\<lparr>files := (files c)(path \<mapsto> data)\<rparr>) else None)"

definition save_sync_time :: "client \<Rightarrow> int \<Rightarrow> int \<Rightarrow> client option" where
  "save_sync_time c now_file now_mem =
     (case write_file c ''UserData/last_sync.txt'' (IntText now_file) of
        None \<Rightarrow> None
      | Some c1 \<Rightarrow> Some (c1\<lparr>data_manager := (data_manager c1)\<lparr>last_sync_time := now_mem\<rparr>\<rparr>))"


definition dict_keys :: "string list \<Rightarrow> string list" where
  "dict_keys ks = map fst (fold (\<lambda>k. AList.update k ()) ks [])"

definition save_relations :: "client \<Rightarrow> bool \<times> client" where
  "save_relations c =
     (let data = dict_keys (map (\<lambda>friend. ''f_'' @ friend) (friends (data_manager c)) @
                            map (\<lambda>group. ''g_'' @ group) (groups (data_manager c)))
      in case write_file c ''UserData/relations.json'' (JsonKeys data) of
           Some c1 \<Rightarrow> (True, c1)
         | None \<Rightarrow> (False, c))"

text \<open>The loop of \<open>prepare_backup_data\<close>; \<open>ivs i\<close> is the randomness of the
  \<open>i\<close>-th sealing.\<close>

fun seal_history ::
  "crypto \<Rightarrow> encryption_manager \<Rightarrow> (nat \<Rightarrow> bytes) \<Rightarrow> nat \<Rightarrow> (string \<times> string list) list
     \<Rightarrow> (string \<times> string) list \<Rightarrow> (string \<times> string) list" where
  "seal_history L em ivs i [] acc = acc"
| "seal_history L em ivs i ((k, messages) # rest) acc =
     (case encrypt_data_for_storage L em (PList (map PStr messages)) (ivs i) of
        Some encrypted_messages \<Rightarrow>
          seal_history L em ivs (Suc i) rest
            (if encrypted_messages \<noteq> [] then AList.update k encrypted_messages acc else acc)
      | None \<Rightarrow> seal_history L em ivs (Suc i) rest acc)"

definition prepare_backup_data :: "crypto \<Rightarrow> client \<Rightarrow> int \<Rightarrow> (nat \<Rightarrow> bytes) \<Rightarrow> backup_data" where
  "prepare_backup_data L c now ivs =
     \<lparr>bk_friends = Some (friends (data_manager c)),
      bk_groups = Some (groups (data_manager c)),
      bk_message_history =
        Some (seal_history L (encryption_manager c) ivs 0 (message_history (data_manager c)) []),
      bk_timestamp = Some now\<rparr>"

fun as_str :: "pyvalue \<Rightarrow> string option" where
  "as_str (PStr s) = Some s"
| "as_str _ = None"

fun as_messages :: "pyvalue \<Rightarrow> string list option" where
  "as_messages (PList xs) =
     (if list_all (\<lambda>x. as_str x \<noteq> None) xs then Some (map (\<lambda>x. the (as_str x)) xs) else None)"
| "as_messages _ = None"

text \<open>The loop of \<open>restore_from_backup\<close> over the snapshot's histories. The
  flag is \<open>False\<close> when an exception left the loop, with the state reached.\<close>

fun restore_history :: "crypto \<Rightarrow> client \<Rightarrow> (string \<times> string) list \<Rightarrow> bool \<times> client" where
  "restore_history L c [] = (True, c)"
| "restore_history L c ((k, encrypted_messages) # rest) =
     (case decrypt_data_from_storage L (encryption_manager c) encrypted_messages of
        None \<Rightarrow> restore_history L c rest
      | Some decrypted_messages \<Rightarrow>
          if decrypted_messages = [] then restore_history L c rest
          else
            (case utf8_decode L decrypted_messages of
               None \<Rightarrow> (False, c)
             | Some txt \<Rightarrow>
                 (case json_loads L txt of
                    None \<Rightarrow> (False, c)
                  | Some v \<Rightarrow>
                      (case as_messages v of
                         None \<Rightarrow> (False, c)
                       | Some messages \<Rightarrow>
                           (let dm = data_manager c;
                                c1 = c\<lparr>data_manager :=
                                         dm\<lparr>message_history :=
                                              AList.update k messages (message_history dm)\<rparr>\<rparr>
                            in case write_file c1 (''MessageHistory/'' @ k @ ''.json'')
                                      (JsonList messages) of
                                 None \<Rightarrow> (False, c1)
                               | Some c2 \<Rightarrow> restore_history L c2 rest)))))"

definition empty_backup :: backup_data where
  "empty_backup =
     \<lparr>bk_friends = None, bk_groups = None, bk_message_history = None, bk_timestamp = None\<rparr>"

definition restore_from_backup ::
  "crypto \<Rightarrow> client \<Rightarrow> backup_data option \<Rightarrow> int \<Rightarrow> int \<Rightarrow> int \<Rightarrow> bool \<times> client" where
  "restore_from_backup L c backup now_default now_file now_mem =
     (case backup of
        None \<Rightarrow> (False, c)
      | Some b \<Rightarrow>
          if b = empty_backup then (False, c)
          else
            (let c1 = c\<lparr>data_manager :=
                         (data_manager c)
                           \<lparr>friends := (case bk_friends b of Some fs \<Rightarrow> fs | None \<Rightarrow> []),
                            groups := (case bk_groups b of Some gs \<Rightarrow> gs | None \<Rightarrow> [])\<rparr>\<rparr>;
                 c2 = snd (save_relations c1);
                 (ok, c3) = restore_history L c2
                              (case bk_message_history b of Some h \<Rightarrow> h | None \<Rightarrow> [])
             in if \<not> ok then (False, c3)
                else
                  (let c4 = c3\<lparr>data_manager :=
                                (data_manager c3)
                                  \<lparr>last_sync_time :=
                                     (case bk_timestamp b of Some t \<Rightarrow> t | None \<Rightarrow> now_default)\<rparr>\<rparr>
                   in case save_sync_time c4 now_file now_mem of
                        None \<Rightarrow> (False, c4)
                      | Some c5 \<Rightarrow> (True, c5))))"

section \<open>Client: main_messenger.py\<close>

text \<open>
  The relay's answers are arguments: \<open>api_get_messages since\<close> and
  \<open>api_get_group_messages since\<close> are what \<open>ServerAPI\<close> returns for the request
  (success flag and rows), \<open>upload_ok\<close> whether the backup upload succeeded.
  \<open>show_notification\<close> appends to \<open>notifications\<close>.
\<close>

definition authenticated :: "client \<Rightarrow> bool" where
  "authenticated c \<longleftrightarrow> auth_token c \<noteq> None \<and> auth_token c \<noteq> Some []"





text \<open>\<open>backup_user_data\<close> returns the snapshot it uploaded, if it got that
  far, and the state after; the state is \<open>None\<close> when \<open>save_sync_time\<close> raised.\<close>

definition backup_user_data ::
  "crypto \<Rightarrow> client \<Rightarrow> int \<Rightarrow> (nat \<Rightarrow> bytes) \<Rightarrow> bool \<Rightarrow> int \<Rightarrow> int
     \<Rightarrow> backup_data option \<times> client option" where
  "backup_user_data L c now_snapshot ivs upload_ok now_file now_mem =
     (if \<not> authenticated c then (None, Some c)
      else
        (let backup = prepare_backup_data L c now_snapshot ivs in
         if upload_ok then (Some backup, save_sync_time c now_file now_mem)
         else (Some backup, Some c)))"

section \<open>Vocabulary of the properties\<close>

subsection \<open>Relay states and the order of received rows\<close>

text \<open>
  What the schema and the handlers keep true of a relay database: user ids and
  group ids are primary keys, message ids ascend in insertion order, every
  message was sent by a registered user (\<open>send_message\<close> stores the authenticated
  caller), memberships are unique per (group, user) and belong to existing groups.
\<close>

definition relay_wf :: "database \<Rightarrow> bool" where
  "relay_wf db \<longleftrightarrow>
     distinct (map u_id (t_users db)) \<and>
     sorted_wrt (<) (map m_id (t_messages db)) \<and>
     (\<forall>m \<in> set (t_messages db). \<exists>u \<in> set (t_users db). u_id u = m_sender_id m) \<and>
     distinct (map g_id (t_groups db)) \<and>
     distinct (map (\<lambda>gm. (gm_group_id gm, gm_user_id gm)) (t_group_members db)) \<and>
     (\<forall>gm \<in> set (t_group_members db). \<exists>g \<in> set (t_groups db). g_id g = gm_group_id gm)"

text \<open>
  The stored records a receive call is about: direct messages addressed to the
  user, and group messages addressed to a group the user is a member of, later
  than \<open>since\<close>. The order the specification describes: by timestamp, ties by id.
\<close>

definition direct_for :: "int \<Rightarrow> int \<Rightarrow> message_row \<Rightarrow> bool" where
  "direct_for uid since m \<longleftrightarrow>
     m_recipient_id m = uid \<and> since < m_timestamp m \<and> \<not> m_is_group m"


definition dm_before :: "direct_message \<Rightarrow> direct_message \<Rightarrow> bool" where
  "dm_before a b \<longleftrightarrow>
     dm_timestamp a < dm_timestamp b \<or> (dm_timestamp a = dm_timestamp b \<and> dm_id a < dm_id b)"


text \<open>A small relay database: two users, one group with both as members, one token
  expiring at 100, direct messages to bob at 10, 20 and 30, group messages at 40, 25 and 25.\<close>

definition demo_user :: "int \<Rightarrow> string \<Rightarrow> user_row" where
  "demo_user i name =
     \<lparr>u_id = i, u_username = name, u_email = name @ ''@example.org'', u_password_hash = ''h'',
      u_public_key = name, u_created_at = 1, u_last_login = None\<rparr>"

definition demo_msg :: "int \<Rightarrow> int \<Rightarrow> int \<Rightarrow> bool \<Rightarrow> int \<Rightarrow> message_row" where
  "demo_msg i sender recipient is_group ts =
     \<lparr>m_id = i, m_sender_id = sender, m_recipient_id = recipient, m_encrypted_key = ''k'',
      m_encrypted_content = ''c'', m_is_group = is_group, m_timestamp = ts, m_delivered = False\<rparr>"

definition demo_db :: database where
  "demo_db =
     \<lparr>t_users = [demo_user 1 ''alice'', demo_user 2 ''bob''],
      t_auth_tokens = [\<lparr>tok_id = 1, tok_user_id = 1, tok_token = ''t1'', tok_created_at = 0,
                        tok_expires_at = 100\<rparr>],
      t_friends = [],
      t_groups = [\<lparr>g_id = 1, g_name = ''team'', g_created_by = 1, g_created_at = 1\<rparr>],
      t_group_members = [\<lparr>gm_id = 1, gm_group_id = 1, gm_user_id = 1, gm_joined_at = 1\<rparr>,
                         \<lparr>gm_id = 2, gm_group_id = 1, gm_user_id = 2, gm_joined_at = 1\<rparr>],
      t_messages = [demo_msg 1 1 2 False 10, demo_msg 2 1 2 False 20, demo_msg 3 1 2 False 30,
                    demo_msg 4 1 1 True 40, demo_msg 5 2 1 True 25, demo_msg 6 1 1 True 25],
      seq_users = 2, seq_auth_tokens = 1, seq_friends = 0, seq_messages = 6\<rparr>"

text \<open>
  What a plan of the engine may do to the joined rows before they are sorted:
  yield the same rows, in another order. The plan that runs the loop over
  \<open>users\<close> outermost and looks the messages of each user up yields the rows by
  sender id and, under one sender, in rowid order.
\<close>

definition rearranges :: "('a list \<Rightarrow> 'a list) \<Rightarrow> bool" where
  "rearranges plan \<longleftrightarrow> (\<forall>rows. set (plan rows) = set rows \<and> length (plan rows) = length rows)"

definition users_outermost :: "direct_message list \<Rightarrow> direct_message list" where
  "users_outermost rows = sort_key dm_sender_id rows"

text \<open>
  The small database with an inbox whose records differ in key and content:
  direct messages to bob at 10, 20 and 30, group messages at 40, 25 and 25. A
  database with two direct messages to bob at the same time, the first from carol
  (3), the second from alice (1). A database with \<open>n\<close> direct messages to bob.
\<close>

definition inbox_msg ::
  "int \<Rightarrow> int \<Rightarrow> int \<Rightarrow> bool \<Rightarrow> int \<Rightarrow> string \<Rightarrow> string \<Rightarrow> message_row" where
  "inbox_msg i sender recipient is_group ts ekey econtent =
     \<lparr>m_id = i, m_sender_id = sender, m_recipient_id = recipient, m_encrypted_key = ekey,
      m_encrypted_content = econtent, m_is_group = is_group, m_timestamp = ts,
      m_delivered = False\<rparr>"

definition inbox_db :: database where
  "inbox_db =
     demo_db\<lparr>t_messages :=
       [inbox_msg 1 1 2 False 10 ''k1'' ''c1'', inbox_msg 2 1 2 False 20 ''k2'' ''c2'',
        inbox_msg 3 1 2 False 30 ''k3'' ''c3'', inbox_msg 4 1 1 True 40 ''k4'' ''c4'',
        inbox_msg 5 2 1 True 25 ''k5'' ''c5'', inbox_msg 6 1 1 True 25 ''k6'' ''c6'']\<rparr>"

definition tie_db :: database where
  "tie_db =
     demo_db\<lparr>t_users := [demo_user 1 ''alice'', demo_user 2 ''bob'', demo_user 3 ''carol''],
             t_messages := [inbox_msg 1 3 2 False 10 ''k1'' ''c1'',
                            inbox_msg 2 1 2 False 10 ''k2'' ''c2''],
             seq_users := 3, seq_messages := 2\<rparr>"

definition big_db :: "nat \<Rightarrow> database" where
  "big_db n =
     demo_db\<lparr>t_messages := map (\<lambda>i. demo_msg (int i + 1) 1 2 False 10) [0..<n],
             seq_messages := int n\<rparr>"

subsection \<open>Presented tokens and the friend graph\<close>

text \<open>The token a Bearer header presents: what follows the prefix, up to the next
  space.\<close>

definition presented_token :: "string \<Rightarrow> string" where
  "presented_token auth = takeWhile (\<lambda>c. c \<noteq> CHR '' '') (drop 7 auth)"

text \<open>
  A run of the friend-request handlers on the small database: alice (1) asks
  bob (2); bob accepts; alice rejects the mirror row, addressed to her; bob
  rejects the first row; alice asks again.
\<close>

definition friends_step1 :: database where
  "friends_step1 = snd (add_friend_request demo_db 1 ''bob'' 10)"

definition friends_step2 :: database where
  "friends_step2 = snd (respond_to_friend_request friends_step1 1 2 True 11)"

definition friends_step3 :: database where
  "friends_step3 = snd (respond_to_friend_request friends_step2 2 1 False 12)"

definition friends_step4 :: database where
  "friends_step4 = snd (respond_to_friend_request friends_step3 1 2 False 13)"

definition friends_step5 :: database where
  "friends_step5 = snd (add_friend_request friends_step4 1 ''bob'' 14)"

text \<open>The friend rows as (id, user, friend, status), and the schema's
  \<open>UNIQUE(user_id, friend_id)\<close>.\<close>

definition edges :: "database \<Rightarrow> (int \<times> int \<times> int \<times> status) list" where
  "edges db = map (\<lambda>f. (f_id f, f_user_id f, f_friend_id f, f_status f)) (t_friends db)"

definition unique_edges :: "database \<Rightarrow> bool" where
  "unique_edges db \<longleftrightarrow> distinct (map (\<lambda>f. (f_user_id f, f_friend_id f)) (t_friends db))"

subsection \<open>Client states used in the statements\<close>


text \<open>A client of alice with one conversation, and a message from bob sealed for
  her by the small library instance.\<close>

definition demo_client :: client where
  "demo_client =
     \<lparr>encryption_manager = alice_em,
      data_manager = \<lparr>message_history = [(''bob'', [''You: hi''])], friends = [''bob''],
                      groups = [], last_sync_time = 0\<rparr>,
      auth_token = Some ''t1'', current_chat = None, chat_area = [], notifications = [],
      files = Map.empty, writable = (\<lambda>path. True)\<rparr>"



subsection \<open>Sealed histories\<close>

text \<open>
  What \<open>restore_from_backup\<close> reads out of one sealed history, when it reads
  anything; and the histories \<open>prepare_backup_data\<close> can seal so that they open
  again: JSON text that is not empty and parses back, tokens whose encoding is not
  empty.
\<close>

definition opened :: "crypto \<Rightarrow> encryption_manager \<Rightarrow> string \<Rightarrow> string list option" where
  "opened L em enc =
     (case decrypt_data_from_storage L em enc of
        None \<Rightarrow> None
      | Some d \<Rightarrow>
          if d = [] then None
          else
            (case utf8_decode L d of
               None \<Rightarrow> None
             | Some txt \<Rightarrow>
                 (case json_loads L txt of None \<Rightarrow> None | Some v \<Rightarrow> as_messages v)))"

definition sealable :: "crypto \<Rightarrow> bytes \<Rightarrow> string list \<Rightarrow> bool" where
  "sealable L k messages \<longleftrightarrow>
     (\<exists>j. json_dumps L (PList (map PStr messages)) = Some j \<and> utf8_encode L j \<noteq> [] \<and>
          json_loads L j = Some (PList (map PStr messages))) \<and>
     (\<forall>iv p c. fernet_encrypt L k iv p = Some c \<longrightarrow> b64encode L c \<noteq> [])"

text \<open>The sealed histories of a snapshot (\<open>backup_data.get('message_history', {})\<close>).\<close>

definition snapshot_history :: "backup_data \<Rightarrow> (string \<times> string) list" where
  "snapshot_history b = (case bk_message_history b of Some h \<Rightarrow> h | None \<Rightarrow> [])"

text \<open>The snapshot alice's client pushes, and three vaults to restore it on: one
  with no local state, one with no local state and a newly generated key, one that
  still holds a conversation with carol.\<close>

definition demo_snapshot :: backup_data where
  "demo_snapshot = prepare_backup_data demo_crypto demo_client 100 (\<lambda>i. ''iv'')"

definition fresh_client :: client where
  "fresh_client =
     demo_client\<lparr>data_manager :=
        \<lparr>message_history = [], friends = [], groups = [], last_sync_time = 0\<rparr>\<rparr>"

definition rekeyed_client :: client where
  "rekeyed_client = fresh_client\<lparr>encryption_manager := demo_em ''alice2'' []\<rparr>"

definition stale_client :: client where
  "stale_client =
     demo_client\<lparr>data_manager :=
        \<lparr>message_history = [(''carol'', [''old''])], friends = [''carol''], groups = [],
         last_sync_time = 0\<rparr>\<rparr>"

section \<open>Properties of the message cipher\<close>

lemma demo_open_seal: "demo_open k (the (demo_seal k p)) = Some p"
  by (simp add: demo_open_def demo_seal_def)

lemma demo_library_ok: "library_ok demo_crypto"
  by (simp add: library_ok_def codecs_ok_def fernet_key_ok_def demo_crypto_def
      demo_open_def demo_seal_def)

lemma demo_keypair: "keypair demo_crypto (PublicKey n) (PrivateKey n)"
  by (simp add: keypair_def demo_crypto_def demo_open_def demo_seal_def)

lemma available_key_load:
  "map_of (friend_public_keys em) u = None \<Longrightarrow> available_key L fs em u = Some pk \<Longrightarrow>
   \<exists>em1. load_friend_public_key L fs em u = (True, em1) \<and> map_of (friend_public_keys em1) u = Some pk"
  by (auto simp: available_key_def split: prod.splits bool.splits)

lemma load_result:
  "load_friend_public_key L fs em u = (ok, em1) \<Longrightarrow>
     (ok \<longrightarrow> (\<exists>pk. friend_public_keys em1 = AList.update u pk (friend_public_keys em))) \<and>
     (\<not> ok \<longrightarrow> em1 = em)"
  by (auto simp: load_friend_public_key_def split: option.splits content.splits)

lemma load_key_value:
  "load_friend_public_key L fs em u = (True, em1) \<Longrightarrow>
   \<exists>d pk. fs (''UserData/Keys/friends/'' @ u @ ''.pem'') = Some (Raw d) \<and>
     load_pem_public_key L d = Some pk \<and>
     friend_public_keys em1 = AList.update u pk (friend_public_keys em)"
  by (auto simp: load_friend_public_key_def split: option.splits content.splits)

lemma available_key_alt:
  "available_key L fs em u =
     (case map_of (friend_public_keys em) u of Some pk \<Rightarrow> Some pk | None \<Rightarrow> file_key L fs u)"
  by (auto simp: available_key_def file_key_def load_friend_public_key_def update_conv'
      split: option.splits content.splits)

lemma encrypt_message_fst:
  "fst (encrypt_message L fs em m u ent) = seal_for L (available_key L fs em u) m ent"
  by (auto simp: encrypt_message_def available_key_alt file_key_def load_friend_public_key_def
      seal_for_def Let_def update_conv' split: option.splits content.splits)

lemma encrypt_message_snd:
  "friend_public_keys (snd (encrypt_message L fs em m u ent)) = friend_public_keys em \<or>
   (map_of (friend_public_keys em) u = None \<and>
    (\<exists>pk. file_key L fs u = Some pk \<and>
       friend_public_keys (snd (encrypt_message L fs em m u ent)) =
         AList.update u pk (friend_public_keys em)))"
  by (auto simp: encrypt_message_def file_key_def load_friend_public_key_def Let_def
      split: option.splits content.splits prod.splits)

lemma available_key_after:
  "available_key L fs (snd (encrypt_message L fs em m u ent)) v = available_key L fs em v"
proof (cases "v = u")
  case True
  then show ?thesis
    using encrypt_message_snd[of L fs em m u ent]
    by (auto simp: available_key_alt update_conv' split: option.splits)
next
  case False
  then show ?thesis
    using encrypt_message_snd[of L fs em m u ent]
    by (auto simp: available_key_alt update_conv' split: option.splits)
qed

lemma set_alist_update: "set (AList.update k v al) \<subseteq> insert (k, v) (set al)"
  by (induction al) auto

lemma encrypt_message_pair:
  "encrypt_message L fs em m u ent =
     (seal_for L (available_key L fs em u) m ent, snd (encrypt_message L fs em m u ent))"
  by (metis encrypt_message_fst prod.collapse)

lemma group_loop_none:
  "\<exists>j<length ms. seal_for L (available_key L fs em (ms ! j)) m (rnd (i + j)) = None \<Longrightarrow>
   fst (encrypt_group_loop L fs em m rnd i ms acc) = None"
proof (induction ms arbitrary: em i acc)
  case Nil
  then show ?case by simp
next
  case (Cons u rest)
  let ?em1 = "snd (encrypt_message L fs em m u (rnd i))"
  show ?case
  proof (cases "seal_for L (available_key L fs em u) m (rnd i)")
    case None
    then show ?thesis
      by (subst encrypt_group_loop.simps, subst encrypt_message_pair) simp
  next
    case (Some e)
    from Cons.prems obtain j where j: "j < length (u # rest)"
      and f: "seal_for L (available_key L fs em ((u # rest) ! j)) m (rnd (i + j)) = None"
      by blast
    from Some f have "j \<noteq> 0" by (cases j) auto
    then obtain j' where j': "j = Suc j'" by (cases j) auto
    with j f have "\<exists>j<length rest.
        seal_for L (available_key L fs ?em1 (rest ! j)) m (rnd (Suc i + j)) = None"
      by (auto simp: available_key_after intro!: exI[of _ j'])
    from Cons.IH[OF this]
    have "fst (encrypt_group_loop L fs ?em1 m rnd (Suc i) rest (AList.update u e acc)) = None" .
    with Some show ?thesis
      by (subst encrypt_group_loop.simps, subst encrypt_message_pair) simp
  qed
qed

lemma group_loop_some:
  "\<forall>j<length ms. seal_for L (available_key L fs em (ms ! j)) m (rnd (i + j)) \<noteq> None \<Longrightarrow>
   \<exists>envs. fst (encrypt_group_loop L fs em m rnd i ms acc) = Some envs \<and>
     fst ` set envs = fst ` set acc \<union> set ms \<and>
     (distinct (map fst acc) \<longrightarrow> distinct (map fst envs)) \<and>
     (\<forall>p \<in> set envs. p \<in> set acc \<or>
        (\<exists>j<length ms. ms ! j = fst p \<and>
            seal_for L (available_key L fs em (fst p)) m (rnd (i + j)) = Some (snd p)))"
proof (induction ms arbitrary: em i acc)
  case Nil
  then show ?case by simp
next
  case (Cons u rest)
  let ?em1 = "snd (encrypt_message L fs em m u (rnd i))"
  from Cons.prems have "seal_for L (available_key L fs em u) m (rnd i) \<noteq> None"
    by fastforce
  then obtain e where e: "seal_for L (available_key L fs em u) m (rnd i) = Some e" by blast
  have "\<forall>j<length rest. seal_for L (available_key L fs ?em1 (rest ! j)) m (rnd (Suc i + j)) \<noteq> None"
    using Cons.prems by (auto simp: available_key_after)
  from Cons.IH[OF this, where acc = "AList.update u e acc"]
  obtain envs where r: "fst (encrypt_group_loop L fs ?em1 m rnd (Suc i) rest (AList.update u e acc)) = Some envs"
    and d: "fst ` set envs = fst ` set (AList.update u e acc) \<union> set rest"
    and di: "distinct (map fst (AList.update u e acc)) \<longrightarrow> distinct (map fst envs)"
    and en: "\<forall>p \<in> set envs. p \<in> set (AList.update u e acc) \<or>
        (\<exists>j<length rest. rest ! j = fst p \<and>
            seal_for L (available_key L fs ?em1 (fst p)) m (rnd (Suc i + j)) = Some (snd p))"
    by blast
  have 1: "fst (encrypt_group_loop L fs em m rnd i (u # rest) acc) = Some envs"
    using e r by (subst encrypt_group_loop.simps, subst encrypt_message_pair) simp
  have 2: "fst ` set envs = fst ` set acc \<union> set (u # rest)"
    using d by (auto simp: dom_update)
  have 3: "distinct (map fst acc) \<longrightarrow> distinct (map fst envs)"
    using di by (simp add: distinct_update)
  have 4: "\<forall>p \<in> set envs. p \<in> set acc \<or>
        (\<exists>j<length (u # rest). (u # rest) ! j = fst p \<and>
            seal_for L (available_key L fs em (fst p)) m (rnd (i + j)) = Some (snd p))"
  proof
    fix p assume "p \<in> set envs"
    with en consider "p \<in> set (AList.update u e acc)"
      | j where "j < length rest" "rest ! j = fst p"
          "seal_for L (available_key L fs ?em1 (fst p)) m (rnd (Suc i + j)) = Some (snd p)"
      by blast
    then show "p \<in> set acc \<or>
        (\<exists>j<length (u # rest). (u # rest) ! j = fst p \<and>
            seal_for L (available_key L fs em (fst p)) m (rnd (i + j)) = Some (snd p))"
    proof cases
      case 1
      then have "p = (u, e) \<or> p \<in> set acc"
        using set_alist_update[of u e acc] by auto
      then show ?thesis
      proof
        assume "p = (u, e)"
        with e have "0 < length (u # rest) \<and> (u # rest) ! 0 = fst p \<and>
            seal_for L (available_key L fs em (fst p)) m (rnd (i + 0)) = Some (snd p)" by simp
        then show ?thesis by blast
      qed simp
    next
      case 2
      then have "Suc j < length (u # rest) \<and> (u # rest) ! Suc j = fst p \<and>
            seal_for L (available_key L fs em (fst p)) m (rnd (i + Suc j)) = Some (snd p)"
        by (simp add: available_key_after)
      then show ?thesis by blast
    qed
  qed
  from 1 2 3 4 show ?case by blast
qed

text \<open>
  C1. For a library whose codecs and ciphers invert, every plaintext and every
  keypair: decrypting with the private key the envelope that \<open>encrypt_message\<close>
  built for the public key returns the plaintext.
\<close>

theorem decrypt_encrypt_message:
  assumes lib: "library_ok L"
      and pair: "keypair L pk sk"
      and avail: "available_key L fs em recipient = Some pk"
      and own: "private_key em' = sk"
  shows "\<exists>env. fst (encrypt_message L fs em m recipient ent) = Some env \<and>
           decrypt_message L em' env = Some m"
proof -
  let ?k = "fernet_generate_key L (key_seed ent)"
  from lib have "fernet_key_ok L ?k" by (simp add: library_ok_def)
  then obtain c where c: "fernet_encrypt L ?k (fernet_iv ent) (utf8_encode L m) = Some c"
    and c': "fernet_decrypt L ?k c = Some (utf8_encode L m)"
    unfolding fernet_key_ok_def by blast
  from pair obtain w where w: "oaep_encrypt L pk (oaep_seed ent) ?k = Some w"
    and w': "oaep_decrypt L sk w = Some ?k"
    unfolding keypair_def by blast
  from lib have b64: "\<And>b. b64decode L (b64encode L b) = Some b"
    and utf: "\<And>s. utf8_decode L (utf8_encode L s) = Some s"
    by (simp_all add: library_ok_def codecs_ok_def)
  have "fst (encrypt_message L fs em m recipient ent) =
          Some \<lparr>key = b64encode L w, message = b64encode L c\<rparr>"
    by (simp add: encrypt_message_fst avail seal_for_def c w)
  moreover have "decrypt_message L em' \<lparr>key = b64encode L w, message = b64encode L c\<rparr> = Some m"
    by (simp add: decrypt_message_def b64 utf own w' c')
  ultimately show ?thesis by blast
qed

theorem decrypt_encrypt_message_witness:
  "library_ok demo_crypto \<and> keypair demo_crypto (PublicKey ''bob'') (PrivateKey ''bob'') \<and>
   available_key demo_crypto Map.empty (demo_em ''alice'' [(''bob'', PublicKey ''bob'')]) ''bob''
     = Some (PublicKey ''bob'') \<and>
   private_key (demo_em ''bob'' []) = PrivateKey ''bob'' \<and>
   (\<exists>env. fst (encrypt_message demo_crypto Map.empty
                 (demo_em ''alice'' [(''bob'', PublicKey ''bob'')]) ''hello'' ''bob''
                 (demo_entropy 0)) = Some env \<and>
          decrypt_message demo_crypto (demo_em ''bob'' []) env = Some ''hello'')"
proof -
  have 1: "library_ok demo_crypto" by (rule demo_library_ok)
  have 2: "keypair demo_crypto (PublicKey ''bob'') (PrivateKey ''bob'')" by (rule demo_keypair)
  have 3: "available_key demo_crypto Map.empty (demo_em ''alice'' [(''bob'', PublicKey ''bob'')]) ''bob''
     = Some (PublicKey ''bob'')"
    by (simp add: available_key_def demo_em_def)
  have 4: "private_key (demo_em ''bob'' []) = PrivateKey ''bob''" by (simp add: demo_em_def)
  from decrypt_encrypt_message[OF 1 2 3 4, of "''hello''" "demo_entropy 0"] 1 2 3 4
  show ?thesis by blast
qed

text \<open>
  C2. Group encryption returns one envelope per member, each the envelope
  \<open>encrypt_message\<close> builds for that member, when every member's encryption
  succeeds; if it fails for any member, or any member's key is missing, the call
  returns \<open>None\<close> and no envelopes.
\<close>

theorem encrypt_group_message_all_or_nothing:
  "((\<exists>i<length members. fst (encrypt_message L fs em m (members ! i) (rnd i)) = None) \<longrightarrow>
      fst (encrypt_group_message L fs em m members rnd) = None) \<and>
   (\<not> (\<exists>i<length members. fst (encrypt_message L fs em m (members ! i) (rnd i)) = None) \<longrightarrow>
      (\<exists>envs. fst (encrypt_group_message L fs em m members rnd) = Some envs \<and>
           distinct (map fst envs) \<and> set (map fst envs) = set members \<and>
           length envs = card (set members) \<and>
           (\<forall>p \<in> set envs. \<exists>i<length members. members ! i = fst p \<and>
               fst (encrypt_message L fs em m (fst p) (rnd i)) = Some (snd p)))) \<and>
   ((\<exists>u \<in> set members. available_key L fs em u = None) \<longrightarrow>
      fst (encrypt_group_message L fs em m members rnd) = None)"
proof -
  let ?fails = "\<exists>i<length members. fst (encrypt_message L fs em m (members ! i) (rnd i)) = None"
  have fail: "fst (encrypt_group_message L fs em m members rnd) = None" if ?fails
    using that group_loop_none[of members L fs em m rnd 0 "[]"]
    by (simp add: encrypt_group_message_def encrypt_message_fst)
  have ok: "\<exists>envs. fst (encrypt_group_message L fs em m members rnd) = Some envs \<and>
           distinct (map fst envs) \<and> set (map fst envs) = set members \<and>
           length envs = card (set members) \<and>
           (\<forall>p \<in> set envs. \<exists>i<length members. members ! i = fst p \<and>
               fst (encrypt_message L fs em m (fst p) (rnd i)) = Some (snd p))" if "\<not> ?fails"
  proof -
    from that have "\<forall>j<length members.
        seal_for L (available_key L fs em (members ! j)) m (rnd (0 + j)) \<noteq> None"
      by (simp add: encrypt_message_fst)
    from group_loop_some[OF this, of "[]"]
    obtain envs where e: "fst (encrypt_group_message L fs em m members rnd) = Some envs"
      and d: "fst ` set envs = set members" and di: "distinct (map fst envs)"
      and en: "\<forall>p \<in> set envs. \<exists>j<length members. members ! j = fst p \<and>
            seal_for L (available_key L fs em (fst p)) m (rnd j) = Some (snd p)"
      by (auto simp: encrypt_group_message_def)
    from d have s: "set (map fst envs) = set members" by simp
    from di have "length envs = card (set (map fst envs))"
      by (metis distinct_card length_map)
    with s have "length envs = card (set members)" by simp
    with e s di en show ?thesis by (auto simp: encrypt_message_fst)
  qed
  have missing: "fst (encrypt_group_message L fs em m members rnd) = None"
    if "\<exists>u \<in> set members. available_key L fs em u = None"
  proof -
    from that obtain i where "i < length members" "available_key L fs em (members ! i) = None"
      by (auto simp: in_set_conv_nth)
    then have ?fails by (auto simp: encrypt_message_fst seal_for_def)
    then show ?thesis by (rule fail)
  qed
  from fail ok missing show ?thesis by blast
qed

lemma demo_available:
  "available_key demo_crypto demo_fs alice_em ''bob'' = Some (PublicKey ''bob'')"
  "available_key demo_crypto demo_fs alice_em ''carol'' = Some (PublicKey ''carol'')"
  "available_key demo_crypto demo_fs alice_em ''dave'' = None"
  by (simp_all add: available_key_alt file_key_def demo_fs_def alice_em_def demo_em_def
      demo_crypto_def)

lemma demo_seal_for:
  "seal_for demo_crypto (Some pk) m ent \<noteq> None"
  by (cases pk) (simp add: seal_for_def demo_crypto_def demo_seal_def)

theorem encrypt_group_message_all_or_nothing_witness:
  "available_key demo_crypto demo_fs alice_em ''dave'' = None \<and>
   fst (encrypt_group_message demo_crypto demo_fs alice_em ''hi'' [''bob'', ''dave''] demo_entropy)
     = None \<and>
   (\<exists>envs. fst (encrypt_group_message demo_crypto demo_fs alice_em ''hi'' [''bob'', ''carol'']
              demo_entropy) = Some envs \<and> length envs = 2)"
proof -
  have a: "\<exists>u \<in> set [''bob'', ''dave'']. available_key demo_crypto demo_fs alice_em u = None"
    by (simp add: demo_available)
  have b: "\<not> (\<exists>i<length [''bob'', ''carol''].
      fst (encrypt_message demo_crypto demo_fs alice_em ''hi'' ([''bob'', ''carol''] ! i)
             (demo_entropy i)) = None)"
  proof
    assume "\<exists>i<length [''bob'', ''carol''].
      fst (encrypt_message demo_crypto demo_fs alice_em ''hi'' ([''bob'', ''carol''] ! i)
             (demo_entropy i)) = None"
    then obtain i where i: "i < length [''bob'', ''carol'']"
      and n: "fst (encrypt_message demo_crypto demo_fs alice_em ''hi'' ([''bob'', ''carol''] ! i)
             (demo_entropy i)) = None" by blast
    from i have "i = 0 \<or> i = 1" by auto
    with n show False
      by (auto simp: encrypt_message_fst demo_available demo_seal_for)
  qed
  have c: "card (set [''bob'', ''carol'']) = 2" by simp
  from encrypt_group_message_all_or_nothing
         [of "[''bob'', ''dave'']" demo_crypto demo_fs alice_em "''hi''" demo_entropy] a
  have 1: "fst (encrypt_group_message demo_crypto demo_fs alice_em ''hi'' [''bob'', ''dave'']
             demo_entropy) = None" by blast
  from encrypt_group_message_all_or_nothing
         [of "[''bob'', ''carol'']" demo_crypto demo_fs alice_em "''hi''" demo_entropy]
  have "\<not> (\<exists>i<length [''bob'', ''carol''].
      fst (encrypt_message demo_crypto demo_fs alice_em ''hi'' ([''bob'', ''carol''] ! i)
             (demo_entropy i)) = None) \<longrightarrow>
      (\<exists>envs. fst (encrypt_group_message demo_crypto demo_fs alice_em ''hi'' [''bob'', ''carol'']
                 demo_entropy) = Some envs \<and>
           distinct (map fst envs) \<and> set (map fst envs) = set [''bob'', ''carol''] \<and>
           length envs = card (set [''bob'', ''carol'']) \<and>
           (\<forall>p \<in> set envs. \<exists>i<length [''bob'', ''carol'']. [''bob'', ''carol''] ! i = fst p \<and>
               fst (encrypt_message demo_crypto demo_fs alice_em ''hi'' (fst p) (demo_entropy i))
                 = Some (snd p)))"
    by (elim conjE)
  with b obtain envs where "fst (encrypt_group_message demo_crypto demo_fs alice_em ''hi''
        [''bob'', ''carol''] demo_entropy) = Some envs" "length envs = card (set [''bob'', ''carol''])"
    by blast
  with c have 2: "\<exists>envs. fst (encrypt_group_message demo_crypto demo_fs alice_em ''hi''
        [''bob'', ''carol''] demo_entropy) = Some envs \<and> length envs = 2" by auto
  from 1 2 demo_available(3) show ?thesis by blast
qed

section \<open>Properties of the two receive paths\<close>




lemma concat_at_most_one:
  assumes "distinct (map k ys)"
      and "\<forall>y \<in> set ys. length (G y) \<le> 1"
      and "\<forall>y \<in> set ys. G y \<noteq> [] \<longrightarrow> k y = a"
  shows "length (concat (map G ys)) \<le> 1"
  using assms
proof (induction ys)
  case Nil
  then show ?case by simp
next
  case (Cons y ys)
  show ?case
  proof (cases "G y = []")
    case True
    with Cons show ?thesis by simp
  next
    case False
    with Cons.prems have "k y = a" by simp
    with Cons.prems(1) have "\<forall>z \<in> set ys. k z \<noteq> a" by (auto simp: image_iff)
    with Cons.prems(3) have "\<forall>z \<in> set ys. G z = []" by auto
    then have c: "concat (map G ys) = []" by simp
    have "concat (map G (y # ys)) = G y @ concat (map G ys)" by simp
    also have "\<dots> = G y" by (simp only: c append_Nil2)
    finally have e: "concat (map G (y # ys)) = G y" .
    from Cons.prems(2) have l: "length (G y) \<le> 1" by simp
    show ?thesis unfolding e by (rule l)
  qed
qed




lemma concat_length_filter:
  assumes "\<forall>x \<in> set xs. length (F x) = (if P x then 1 else 0)"
  shows "length (concat (map F xs)) = length (filter P xs)"
  using assms by (induction xs) auto



lemma direct_join_cell:
  assumes wf: "relay_wf db" and m: "m \<in> set (t_messages db)"
  shows "length (concat (map (\<lambda>u.
         if m_sender_id m = u_id u \<and> m_recipient_id m = uid \<and>
            m_timestamp m > since \<and> \<not> m_is_group m
         then [direct_row m u] else []) (t_users db))) =
       (if direct_for uid since m then 1 else 0)"
    (is "length ?F = _")
proof -
  from wf have du: "distinct (map u_id (t_users db))"
    and se: "\<forall>m \<in> set (t_messages db). \<exists>u \<in> set (t_users db). u_id u = m_sender_id m"
    by (simp_all add: relay_wf_def)
  have le: "length ?F \<le> 1"
    by (rule concat_at_most_one[OF du, where a = "m_sender_id m"]) auto
  show ?thesis
  proof (cases "direct_for uid since m")
    case True
    from se m obtain u where u: "u \<in> set (t_users db)" "u_id u = m_sender_id m" by blast
    with True have "direct_row m u \<in> set ?F" unfolding direct_for_def by force
    then have "?F \<noteq> []" by (metis empty_iff list.set(1))
    then have "0 < length ?F" by (rule iffD2[OF length_greater_0_conv])
    with le have "length ?F = 1" by linarith
    with True show ?thesis by (simp only: if_True)
  next
    case False
    then have e: "?F = []" by (auto simp: direct_for_def)
    show ?thesis by (simp only: e False if_False list.size)
  qed
qed

lemma direct_join_length:
  assumes "relay_wf db"
  shows "length (direct_join db uid since) =
         length (filter (direct_for uid since) (t_messages db))"
  unfolding direct_join_def
  by (rule concat_length_filter) (use direct_join_cell[OF assms] in blast)










lemma rearranges_sort_key: "rearranges (sort_key f)"
  by (simp add: rearranges_def)

lemma inbox_db_wf: "relay_wf inbox_db"
  by (simp add: relay_wf_def inbox_db_def demo_db_def demo_user_def inbox_msg_def)




lemma tie_db_wf: "relay_wf tie_db"
  by (simp add: relay_wf_def tie_db_def demo_db_def demo_user_def inbox_msg_def)

lemma tie_direct:
  "\<exists>db'. get_messages users_outermost tie_db 2 0 =
     Inr ([\<lparr>dm_id = 2, dm_sender_id = 1, dm_sender = ''alice'', dm_encrypted_key = ''k2'',
            dm_encrypted_content = ''c2'', dm_timestamp = 10, dm_is_group = False\<rparr>,
           \<lparr>dm_id = 1, dm_sender_id = 3, dm_sender = ''carol'', dm_encrypted_key = ''k1'',
            dm_encrypted_content = ''c1'', dm_timestamp = 10, dm_is_group = False\<rparr>], db')"
  by (simp add: get_messages_def direct_join_def int64_def max_variable_number_def
      users_outermost_def tie_db_def demo_db_def demo_user_def inbox_msg_def direct_row_def)

lemma big_db_wf: "relay_wf (big_db n)"
proof -
  have "sorted_wrt (\<lambda>x y. int x + 1 < int y + 1) [0..<n]"
    by (rule sorted_wrt_mono_rel[OF _ sorted_wrt_upt]) simp
  then have "sorted_wrt (<) (map (\<lambda>i. int i + 1) [0..<n])"
    by (simp only: sorted_wrt_map)
  then show ?thesis
    by (simp add: relay_wf_def big_db_def demo_db_def demo_user_def demo_msg_def comp_def)
qed

lemma get_messages_too_many:
  assumes "max_variable_number < n"
  shows "get_messages (\<lambda>rows. rows) (big_db n) 2 0 = Inl OperationalError"
proof -
  have "filter (direct_for 2 0) (t_messages (big_db n)) = t_messages (big_db n)"
    by (rule filter_True) (auto simp: big_db_def demo_msg_def direct_for_def)
  then have "length (direct_join (big_db n) 2 0) = length (t_messages (big_db n))"
    by (simp only: direct_join_length[OF big_db_wf])
  also have "\<dots> = n" by (simp add: big_db_def)
  finally have l: "length (direct_join (big_db n) 2 0) = n" .
  with assms have ne: "direct_join (big_db n) 2 0 \<noteq> []" by auto
  have "sort_key dm_timestamp (direct_join (big_db n) 2 0) \<noteq> []"
    using ne by (metis length_sort length_0_conv)
  with assms l show ?thesis
    by (simp add: get_messages_def Let_def int64_def)
qed




theorem receive_order_and_range_counterexample:
  "relay_wf tie_db \<and> rearranges users_outermost \<and>
   (\<exists>R db'. get_messages users_outermost tie_db 2 0 = Inr (R, db') \<and>
      R = [\<lparr>dm_id = 2, dm_sender_id = 1, dm_sender = ''alice'', dm_encrypted_key = ''k2'',
            dm_encrypted_content = ''c2'', dm_timestamp = 10, dm_is_group = False\<rparr>,
           \<lparr>dm_id = 1, dm_sender_id = 3, dm_sender = ''carol'', dm_encrypted_key = ''k1'',
            dm_encrypted_content = ''c1'', dm_timestamp = 10, dm_is_group = False\<rparr>] \<and>
      \<not> sorted_wrt dm_before R) \<and>
   relay_wf inbox_db \<and>
   get_messages (\<lambda>rows. rows) inbox_db 2 (2 ^ 63) = Inl OverflowError \<and>
   get_group_messages (\<lambda>rows. rows) inbox_db 2 (2 ^ 63) = Inl OverflowError \<and>
   relay_wf (big_db 32767) \<and>
   get_messages (\<lambda>rows. rows) (big_db 32767) 2 0 = Inl OperationalError"
proof -
  from tie_direct have 1: "\<exists>R db'. get_messages users_outermost tie_db 2 0 = Inr (R, db') \<and>
      R = [\<lparr>dm_id = 2, dm_sender_id = 1, dm_sender = ''alice'', dm_encrypted_key = ''k2'',
            dm_encrypted_content = ''c2'', dm_timestamp = 10, dm_is_group = False\<rparr>,
           \<lparr>dm_id = 1, dm_sender_id = 3, dm_sender = ''carol'', dm_encrypted_key = ''k1'',
            dm_encrypted_content = ''c1'', dm_timestamp = 10, dm_is_group = False\<rparr>] \<and>
      \<not> sorted_wrt dm_before R"
    by (auto simp: dm_before_def)
  have 2: "get_messages (\<lambda>rows. rows) inbox_db 2 (2 ^ 63) = Inl OverflowError"
    by (simp add: get_messages_def int64_def)
  have 3: "get_group_messages (\<lambda>rows. rows) inbox_db 2 (2 ^ 63) = Inl OverflowError"
    by (simp add: get_group_messages_def int64_def)
  have 4: "get_messages (\<lambda>rows. rows) (big_db 32767) 2 0 = Inl OperationalError"
    by (rule get_messages_too_many) (simp add: max_variable_number_def)
  have 5: "rearranges users_outermost"
    unfolding users_outermost_def[abs_def] by (rule rearranges_sort_key)
  from tie_db_wf 5 1 inbox_db_wf 2 3 big_db_wf 4 show ?thesis by (intro conjI)
qed

section \<open>Properties of the relay's sessions, registration and friend graph\<close>

lemma split_char_nonempty: "split_char d s \<noteq> []"
  by (induction s) (auto split: list.splits)

lemma split_char_hd: "hd (split_char d s) = takeWhile (\<lambda>c. c \<noteq> d) s"
  by (induction s) (auto split: list.splits simp: split_char_nonempty)

lemma split_bearer_append:
  "split_char CHR '' '' (''Bearer '' @ b) = ''Bearer'' # split_char CHR '' '' b"
  by (simp split: list.splits add: split_char_nonempty)

lemma split_bearer:
  assumes "startswith auth ''Bearer ''"
  shows "\<exists>rest. split_char CHR '' '' auth = ''Bearer'' # presented_token auth # rest"
proof -
  have l: "length ''Bearer '' = 7" by simp
  from assms have "take 7 auth = ''Bearer ''" unfolding startswith_def l .
  then have a: "''Bearer '' @ drop 7 auth = auth"
    using append_take_drop_id[of 7 auth] by simp
  obtain w ws where w: "split_char CHR '' '' (drop 7 auth) = w # ws"
    using split_char_nonempty by (cases "split_char CHR '' '' (drop 7 auth)") auto
  with split_char_hd[of "CHR '' ''" "drop 7 auth"] have "w = presented_token auth"
    by (simp add: presented_token_def)
  with w have "split_char CHR '' '' (''Bearer '' @ drop 7 auth) =
      ''Bearer'' # presented_token auth # ws"
    by (simp only: split_bearer_append)
  then show ?thesis unfolding a by blast
qed

lemma find_SomeD: "find P xs = Some x \<Longrightarrow> P x \<and> x \<in> set xs"
  by (induction xs) (auto split: if_splits)

lemma validate_auth_token_iff:
  assumes "distinct (map tok_token (t_auth_tokens db))"
  shows "validate_auth_token db t now = Some uid \<longleftrightarrow>
     (\<exists>r \<in> set (t_auth_tokens db). tok_token r = t \<and> now < tok_expires_at r \<and> tok_user_id r = uid)"
proof
  assume "validate_auth_token db t now = Some uid"
  then obtain r where "find (\<lambda>r. tok_token r = t \<and> tok_expires_at r > now) (t_auth_tokens db) = Some r"
    and "tok_user_id r = uid"
    by (auto simp: validate_auth_token_def split: option.splits)
  then show "\<exists>r \<in> set (t_auth_tokens db). tok_token r = t \<and> now < tok_expires_at r \<and> tok_user_id r = uid"
    by (auto dest: find_SomeD)
next
  assume "\<exists>r \<in> set (t_auth_tokens db). tok_token r = t \<and> now < tok_expires_at r \<and> tok_user_id r = uid"
  then obtain r where r: "r \<in> set (t_auth_tokens db)" "tok_token r = t" "now < tok_expires_at r"
    "tok_user_id r = uid" by blast
  then have "find (\<lambda>r. tok_token r = t \<and> tok_expires_at r > now) (t_auth_tokens db) \<noteq> None"
    by (auto simp: find_None_iff)
  then obtain r' where f: "find (\<lambda>r. tok_token r = t \<and> tok_expires_at r > now) (t_auth_tokens db) = Some r'"
    by blast
  then have "r' \<in> set (t_auth_tokens db)" "tok_token r' = t"
    by (auto dest: find_SomeD)
  with r assms have "r' = r"
    by (metis distinct_map inj_onD)
  with f r show "validate_auth_token db t now = Some uid"
    by (simp add: validate_auth_token_def)
qed

text \<open>
  C8 (amended). Token validity is checked at call time. A call is accepted as user
  \<open>uid\<close> exactly when it presents a Bearer header whose token is recorded for
  \<open>uid\<close> (not 0) with \<open>now < expires_at\<close>; every other call is
  rejected with status 401. A token is expired from \<open>now = expires_at\<close> on.
\<close>

theorem get_current_user_accepts:
  assumes "distinct (map tok_token (t_auth_tokens db))"
  shows "(get_current_user db auth now = Inr uid \<longleftrightarrow>
            (\<exists>s. auth = Some s \<and> startswith s ''Bearer '' \<and> uid \<noteq> 0 \<and>
                 (\<exists>r \<in> set (t_auth_tokens db).
                     tok_token r = presented_token s \<and> now < tok_expires_at r \<and>
                     tok_user_id r = uid))) \<and>
         ((\<forall>u. get_current_user db auth now \<noteq> Inr u) \<longrightarrow>
            (\<exists>d. get_current_user db auth now = Inl (HTTPException 401 d)))"
proof (cases auth)
  case None
  then show ?thesis by (simp add: get_current_user_def)
next
  case (Some s)
  show ?thesis
  proof (cases "startswith s ''Bearer ''")
    case False
    with Some show ?thesis by (simp add: get_current_user_def)
  next
    case True
    then obtain rest where sp: "split_char CHR '' '' s = ''Bearer'' # presented_token s # rest"
      using split_bearer by blast
    from True have ne: "s \<noteq> []" by (auto simp: startswith_def)
    have g: "get_current_user db auth now =
        (case validate_auth_token db (presented_token s) now of
           None \<Rightarrow> Inl (HTTPException 401 ''Invalid or expired token'')
         | Some user_id \<Rightarrow>
             if user_id = 0 then Inl (HTTPException 401 ''Invalid or expired token'')
             else Inr user_id)"
      using Some True ne sp by (simp add: get_current_user_def)
    have k: "(\<exists>r \<in> set (t_auth_tokens db).
                 tok_token r = presented_token s \<and> now < tok_expires_at r \<and> tok_user_id r = u) \<longleftrightarrow>
             validate_auth_token db (presented_token s) now = Some u" for u
      using validate_auth_token_iff[OF assms, of "presented_token s" now u] by simp
    show ?thesis
      unfolding g using Some True
      by (cases "validate_auth_token db (presented_token s) now") (auto simp: k)
  qed
qed

theorem get_current_user_accepts_witness:
  "distinct (map tok_token (t_auth_tokens demo_db)) \<and>
   get_current_user demo_db (Some ''Bearer t1'') 99 = Inr 1"
proof -
  have d: "distinct (map tok_token (t_auth_tokens demo_db))" by (simp add: demo_db_def)
  have "\<exists>s. Some ''Bearer t1'' = Some s \<and> startswith s ''Bearer '' \<and> (1::int) \<noteq> 0 \<and>
          (\<exists>r \<in> set (t_auth_tokens demo_db).
              tok_token r = presented_token s \<and> 99 < tok_expires_at r \<and> tok_user_id r = 1)"
    by (simp add: startswith_def presented_token_def demo_db_def)
  with get_current_user_accepts[OF d, of "Some ''Bearer t1''" 99 1]
  have "get_current_user demo_db (Some ''Bearer t1'') 99 = Inr 1" by blast
  with d show ?thesis by blast
qed

text \<open>
  C8 as stated fails at \<open>now = expires_at\<close>: the expiry time has not passed
  (\<open>now > expires_at\<close> is false), and the call is rejected.
\<close>

theorem token_valid_at_expiry_counterexample:
  "t_auth_tokens demo_db =
     [\<lparr>tok_id = 1, tok_user_id = 1, tok_token = ''t1'', tok_created_at = 0, tok_expires_at = 100\<rparr>] \<and>
   \<not> ((100::int) > 100) \<and>
   get_current_user demo_db (Some ''Bearer t1'') 100 =
     Inl (HTTPException 401 ''Invalid or expired token'')"
  by (simp add: get_current_user_def validate_auth_token_def startswith_def demo_db_def)

text \<open>
  C10. A registration whose username or email is already in the users table fails with
  status 400 and leaves the whole database as it was: no user row added or changed, no
  token issued.
\<close>

theorem register_duplicate_no_effect:
  assumes "\<exists>u \<in> set (t_users db). u_username u = username \<or> u_email u = email"
  shows "register L kdf db username password email pubkey salt token now =
           (Inl (HTTPException 400 ''Username or email already exists''), db)"
  using assms by (simp add: register_def create_user_def)

theorem register_duplicate_no_effect_witness:
  "(\<exists>u \<in> set (t_users demo_db). u_username u = ''alice'' \<or> u_email u = ''new@example.org'') \<and>
   register demo_crypto (\<lambda>p s. p @ s) demo_db ''alice'' ''pw'' ''new@example.org'' ''pk''
       ''salt'' ''t2'' 50 =
     (Inl (HTTPException 400 ''Username or email already exists''), demo_db)"
proof -
  have a: "\<exists>u \<in> set (t_users demo_db). u_username u = ''alice'' \<or> u_email u = ''new@example.org''"
    by (simp add: demo_db_def demo_user_def)
  from register_duplicate_no_effect[OF a] a show ?thesis by blast
qed

lemma friends_steps:
  "t_friends friends_step1 =
     [\<lparr>f_id = 1, f_user_id = 1, f_friend_id = 2, f_status = Pending, f_created_at = 10,
       f_updated_at = None\<rparr>]"
  "seq_friends friends_step1 = 1"
  "t_users friends_step1 = t_users demo_db"
  by (simp_all add: friends_step1_def add_friend_request_def insert_friend_def demo_db_def
      demo_user_def Let_def)

lemma friends_step2_eval:
  "edges friends_step2 = [(1, 1, 2, Accepted), (2, 2, 1, Accepted)]"
  "seq_friends friends_step2 = 2"
  "t_users friends_step2 = t_users demo_db"
  by (simp_all add: friends_step2_def respond_to_friend_request_def update_friend_status_def
      insert_friend_def friends_steps edges_def Let_def)

lemma friends_step2_rows:
  "t_friends friends_step2 =
     [\<lparr>f_id = 1, f_user_id = 1, f_friend_id = 2, f_status = Accepted, f_created_at = 10,
       f_updated_at = Some 11\<rparr>,
      \<lparr>f_id = 2, f_user_id = 2, f_friend_id = 1, f_status = Accepted, f_created_at = 11,
       f_updated_at = None\<rparr>]"
  by (simp add: friends_step2_def respond_to_friend_request_def update_friend_status_def
      insert_friend_def friends_steps Let_def)

lemma friends_step3_rows:
  "t_friends friends_step3 =
     [\<lparr>f_id = 1, f_user_id = 1, f_friend_id = 2, f_status = Accepted, f_created_at = 10,
       f_updated_at = Some 11\<rparr>,
      \<lparr>f_id = 2, f_user_id = 2, f_friend_id = 1, f_status = Rejected, f_created_at = 11,
       f_updated_at = Some 12\<rparr>]"
  "seq_friends friends_step3 = 2"
  "t_users friends_step3 = t_users demo_db"
  by (simp_all add: friends_step3_def respond_to_friend_request_def update_friend_status_def
      friends_step2_rows friends_step2_eval Let_def)

lemma friends_step4_rows:
  "t_friends friends_step4 =
     [\<lparr>f_id = 1, f_user_id = 1, f_friend_id = 2, f_status = Rejected, f_created_at = 10,
       f_updated_at = Some 13\<rparr>,
      \<lparr>f_id = 2, f_user_id = 2, f_friend_id = 1, f_status = Rejected, f_created_at = 11,
       f_updated_at = Some 12\<rparr>]"
  "seq_friends friends_step4 = 2"
  "t_users friends_step4 = t_users demo_db"
  by (simp_all add: friends_step4_def respond_to_friend_request_def update_friend_status_def
      friends_step3_rows Let_def)

lemma friends_step5_rows:
  "fst (add_friend_request friends_step4 1 ''bob'' 14) = Inr (True, ''Friend request sent'')"
  "t_friends friends_step5 =
     [\<lparr>f_id = 1, f_user_id = 1, f_friend_id = 2, f_status = Pending, f_created_at = 10,
       f_updated_at = Some 14\<rparr>,
      \<lparr>f_id = 2, f_user_id = 2, f_friend_id = 1, f_status = Rejected, f_created_at = 11,
       f_updated_at = Some 12\<rparr>]"
  "seq_friends friends_step5 = 2"
  by (simp_all add: friends_step5_def add_friend_request_def update_friend_status_def
      friends_step4_rows demo_db_def demo_user_def Let_def)

text \<open>
  C9, at the failing input. After request, accept, both sides rejecting, and a new
  request, the edge (1, 2) is pending and the edge (2, 1) is rejected. Accepting the
  pending request then raises \<open>IntegrityError\<close> out of the mirror insert; the
  mirror edge stays rejected.
\<close>

theorem accept_pending_with_stale_mirror:
  "edges friends_step5 = [(1, 1, 2, Pending), (2, 2, 1, Rejected)] \<and>
   fst (respond_to_friend_request friends_step5 1 2 True 15) = Inl IntegrityError \<and>
   edges (snd (respond_to_friend_request friends_step5 1 2 True 15)) =
     [(1, 1, 2, Accepted), (2, 2, 1, Rejected)]"
  by (simp add: respond_to_friend_request_def update_friend_status_def insert_friend_def
      friends_step5_rows edges_def Let_def)

lemma update_friend_status_pairs:
  "map (\<lambda>f. (f_user_id f, f_friend_id f)) (t_friends (update_friend_status db i st now)) =
   map (\<lambda>f. (f_user_id f, f_friend_id f)) (t_friends db)"
  by (simp add: update_friend_status_def comp_def if_distrib cong: if_cong)

lemma insert_friend_unique:
  "unique_edges db \<Longrightarrow> insert_friend db a b st now = Inr db' \<Longrightarrow> unique_edges db'"
  by (auto simp: insert_friend_def unique_edges_def Let_def split: if_splits)

lemma update_friend_status_unique:
  "unique_edges db \<Longrightarrow> unique_edges (update_friend_status db i st now)"
  by (simp add: unique_edges_def update_friend_status_pairs)

lemma add_friend_request_unique:
  assumes "unique_edges db"
  shows "unique_edges (snd (add_friend_request db user_id name now))"
  using assms insert_friend_unique[OF assms] update_friend_status_unique[OF assms]
  by (auto simp: add_friend_request_def Let_def
      split: option.splits status.splits sum.splits)

lemma respond_to_friend_request_unique:
  assumes "unique_edges db"
  shows "unique_edges (snd (respond_to_friend_request db rid user_id accept now))"
  using assms update_friend_status_unique[OF assms]
    insert_friend_unique[OF update_friend_status_unique[OF assms]]
  by (auto simp: respond_to_friend_request_def Let_def split: option.splits sum.splits)

section \<open>Properties of the local vault and the sync watermark\<close>








text \<open>
  C6 (amended). After a successful push (token present, upload accepted, watermark file
  written) \<open>last_sync_time\<close> is the clock reading taken when the watermark is
  saved, and the file holds the clock reading taken just before; the snapshot carries the
  reading taken before the upload.
\<close>

theorem push_sets_watermark_to_now:
  assumes "authenticated c" and "upload_ok" and "writable c ''UserData/last_sync.txt''"
  shows "\<exists>snapshot c'. backup_user_data L c now_snapshot ivs upload_ok now_file now_mem =
             (Some snapshot, Some c') \<and>
           bk_timestamp snapshot = Some now_snapshot \<and>
           last_sync_time (data_manager c') = now_mem \<and>
           files c' ''UserData/last_sync.txt'' = Some (IntText now_file)"
  using assms
  by (simp add: backup_user_data_def save_sync_time_def write_file_def prepare_backup_data_def
      Let_def)


theorem push_sets_watermark_to_now_witness:
  "authenticated demo_client \<and> writable demo_client ''UserData/last_sync.txt'' \<and>
   (\<exists>snapshot c'. backup_user_data demo_crypto demo_client 100 (\<lambda>i. ''iv'') True 100 100 =
             (Some snapshot, Some c') \<and>
           bk_timestamp snapshot = Some 100 \<and>
           last_sync_time (data_manager c') = 100 \<and>
           files c' ''UserData/last_sync.txt'' = Some (IntText 100))"
proof -
  have a: "authenticated demo_client" by (simp add: authenticated_def demo_client_def)
  have w: "writable demo_client ''UserData/last_sync.txt''" by (simp add: demo_client_def)
  from push_sets_watermark_to_now[OF a _ w, of True demo_crypto 100 "\<lambda>i. ''iv''" 100 100] a w
  show ?thesis by simp
qed

text \<open>
  C6 as stated fails when the clock advances during the upload: the snapshot says 100,
  the watermark becomes 101.
\<close>

theorem push_watermark_counterexample:
  "bk_timestamp (the (fst (backup_user_data demo_crypto demo_client 100 (\<lambda>i. ''iv'') True 101 101)))
     = Some 100 \<and>
   last_sync_time (data_manager
     (the (snd (backup_user_data demo_crypto demo_client 100 (\<lambda>i. ''iv'') True 101 101)))) = 101 \<and>
   files (the (snd (backup_user_data demo_crypto demo_client 100 (\<lambda>i. ''iv'') True 101 101)))
     ''UserData/last_sync.txt'' = Some (IntText 101) \<and>
   (101::int) \<noteq> 100"
  by (simp add: backup_user_data_def save_sync_time_def write_file_def prepare_backup_data_def
      authenticated_def demo_client_def Let_def)



lemma demo_codecs_ok: "codecs_ok demo_crypto"
  by (simp add: codecs_ok_def demo_crypto_def)

lemma demo_key_ok: "fernet_key_ok demo_crypto k"
  by (simp add: fernet_key_ok_def demo_crypto_def demo_open_def demo_seal_def)




section \<open>Properties of backup and restore\<close>

lemma write_file_fields:
  "write_file c p v = Some c' \<Longrightarrow>
     data_manager c' = data_manager c \<and> encryption_manager c' = encryption_manager c \<and>
     writable c' = writable c"
  by (auto simp: write_file_def split: if_splits)

lemma restore_history_frame:
  "restore_history L c h = (ok, c') \<Longrightarrow>
     encryption_manager c' = encryption_manager c \<and> writable c' = writable c \<and>
     friends (data_manager c') = friends (data_manager c) \<and>
     groups (data_manager c') = groups (data_manager c) \<and>
     last_sync_time (data_manager c') = last_sync_time (data_manager c)"
proof (induction h arbitrary: c)
  case Nil
  then show ?case by simp
next
  case (Cons a h)
  obtain k enc where a: "a = (k, enc)" by (cases a)
  show ?case
    using Cons.prems Cons.IH unfolding a
    by (auto simp: Let_def dest!: write_file_fields split: option.splits if_splits)
qed

text \<open>One step of the loop, by what the sealed entry opens to.\<close>

lemma restore_history_skip:
  "opened L (encryption_manager c) enc = None \<Longrightarrow>
   restore_history L c ((k, enc) # rest) = (True, c') \<Longrightarrow>
   restore_history L c rest = (True, c')"
  by (auto simp: opened_def Let_def split: option.splits if_splits)

lemma restore_history_store:
  assumes "opened L (encryption_manager c) enc = Some messages"
      and "restore_history L c ((k, enc) # rest) = (True, c')"
  shows "\<exists>c2. restore_history L c2 rest = (True, c') \<and>
           encryption_manager c2 = encryption_manager c \<and>
           message_history (data_manager c2) =
             AList.update k messages (message_history (data_manager c))"
  using assms
  by (auto simp: opened_def Let_def write_file_def split: option.splits if_splits)

lemma restore_history_lookup:
  assumes "restore_history L c h = (True, c')" and "distinct (map fst h)"
  shows "map_of (message_history (data_manager c')) k =
     (case map_of h k of
        None \<Rightarrow> map_of (message_history (data_manager c)) k
      | Some enc \<Rightarrow>
          (case opened L (encryption_manager c) enc of
             Some messages \<Rightarrow> Some messages
           | None \<Rightarrow> map_of (message_history (data_manager c)) k))"
  using assms
proof (induction h arbitrary: c)
  case Nil
  then show ?case by simp
next
  case (Cons a h)
  obtain k0 enc where a: "a = (k0, enc)" by (cases a)
  from Cons.prems(2) a have dh: "distinct (map fst h)" and nk: "map_of h k0 = None"
    by (auto simp: map_of_eq_None_iff)
  show ?case
  proof (cases "opened L (encryption_manager c) enc")
    case None
    with Cons.prems(1) a have "restore_history L c h = (True, c')"
      using restore_history_skip by blast
    from Cons.IH[OF this dh] None nk show ?thesis unfolding a by auto
  next
    case (Some messages)
    with Cons.prems(1) a obtain c2 where r: "restore_history L c2 h = (True, c')"
      and e: "encryption_manager c2 = encryption_manager c"
      and m: "message_history (data_manager c2) =
             AList.update k0 messages (message_history (data_manager c))"
      using restore_history_store by blast
    have u: "map_of (message_history (data_manager c2)) k =
        (if k = k0 then Some messages else map_of (message_history (data_manager c)) k)"
      unfolding m by (simp add: update_conv')
    note ih = Cons.IH[OF r dh, unfolded e u]
    show ?thesis
    proof (cases "k = k0")
      case True
      with ih nk Some show ?thesis unfolding a by simp
    next
      case False
      with ih show ?thesis unfolding a by simp
    qed
  qed
qed

lemma as_messages_PStr: "as_messages (PList (map PStr ms)) = Some ms"
  by (simp add: list_all_iff comp_def)

lemma alist_update_fresh: "k \<notin> fst ` set al \<Longrightarrow> AList.update k v al = al @ [(k, v)]"
  by (induction al) auto

lemma sealed_opens:
  assumes "codecs_ok L" and "fernet_key_ok L (symmetric_key em)"
      and "symmetric_key em' = symmetric_key em" and "sealable L (symmetric_key em) ms"
  shows "\<exists>e. encrypt_data_for_storage L em (PList (map PStr ms)) iv = Some e \<and> e \<noteq> [] \<and>
           opened L em' e = Some ms"
proof -
  from assms(4) obtain j where j: "json_dumps L (PList (map PStr ms)) = Some j"
    "utf8_encode L j \<noteq> []" "json_loads L j = Some (PList (map PStr ms))"
    and ne: "\<And>iv p c. fernet_encrypt L (symmetric_key em) iv p = Some c \<Longrightarrow> b64encode L c \<noteq> []"
    unfolding sealable_def by blast
  from assms(2) obtain t where t: "fernet_encrypt L (symmetric_key em) iv (utf8_encode L j) = Some t"
    "fernet_decrypt L (symmetric_key em) t = Some (utf8_encode L j)"
    unfolding fernet_key_ok_def by blast
  from assms(1) have b: "b64decode L (b64encode L t) = Some t"
    and u: "utf8_decode L (utf8_encode L j) = Some j"
    by (simp_all add: codecs_ok_def)
  have 1: "encrypt_data_for_storage L em (PList (map PStr ms)) iv = Some (b64encode L t)"
    by (simp add: encrypt_data_for_storage_def j t)
  have 2: "b64encode L t \<noteq> []" using ne t(1) by blast
  have 3: "opened L em' (b64encode L t) = Some ms"
    by (simp add: opened_def decrypt_data_from_storage_def b assms(3) t j u as_messages_PStr
        del: as_messages.simps)
  from 1 2 3 show ?thesis by blast
qed

lemma seal_history_append:
  assumes "codecs_ok L" and "fernet_key_ok L (symmetric_key em)"
      and "symmetric_key em' = symmetric_key em"
      and "\<forall>p \<in> set h. sealable L (symmetric_key em) (snd p)"
      and "distinct (map fst h)" and "fst ` set acc \<inter> fst ` set h = {}"
  shows "\<exists>S. seal_history L em ivs i h acc = acc @ S \<and>
           list_all2 (\<lambda>x y. fst x = fst y \<and> opened L em' (snd x) = Some (snd y)) S h"
  using assms(4-6)
proof (induction h arbitrary: i acc)
  case Nil
  then show ?case by simp
next
  case (Cons a h)
  obtain k ms where a: "a = (k, ms)" by (cases a)
  from Cons.prems(1) a have "sealable L (symmetric_key em) ms" by simp
  from sealed_opens[OF assms(1-3) this, of "ivs i"]
  obtain e where e: "encrypt_data_for_storage L em (PList (map PStr ms)) (ivs i) = Some e"
    "e \<noteq> []" "opened L em' e = Some ms" by blast
  from Cons.prems(3) a have "k \<notin> fst ` set acc" by auto
  then have up: "AList.update k e acc = acc @ [(k, e)]" by (rule alist_update_fresh)
  have "\<exists>S. seal_history L em ivs (Suc i) h (acc @ [(k, e)]) = (acc @ [(k, e)]) @ S \<and>
           list_all2 (\<lambda>x y. fst x = fst y \<and> opened L em' (snd x) = Some (snd y)) S h"
  proof (rule Cons.IH)
    show "\<forall>p \<in> set h. sealable L (symmetric_key em) (snd p)" using Cons.prems(1) by simp
    show "distinct (map fst h)" using Cons.prems(2) by simp
    show "fst ` set (acc @ [(k, e)]) \<inter> fst ` set h = {}"
      using Cons.prems(2,3) a by auto
  qed
  then obtain S where S: "seal_history L em ivs (Suc i) h (acc @ [(k, e)]) = (acc @ [(k, e)]) @ S"
    "list_all2 (\<lambda>x y. fst x = fst y \<and> opened L em' (snd x) = Some (snd y)) S h" by blast
  have "seal_history L em ivs i (a # h) acc = acc @ ((k, e) # S)"
    unfolding a using e S(1) by (simp add: up)
  moreover have "list_all2 (\<lambda>x y. fst x = fst y \<and> opened L em' (snd x) = Some (snd y))
      ((k, e) # S) (a # h)"
    unfolding a using e(3) S(2) by simp
  ultimately show ?case by blast
qed

lemma restore_history_step:
  assumes "opened L (encryption_manager c) enc = Some ms"
      and "writable c (''MessageHistory/'' @ k @ ''.json'')"
  shows "restore_history L c ((k, enc) # rest) =
     restore_history L
       (c\<lparr>data_manager :=
            (data_manager c)\<lparr>message_history :=
               AList.update k ms (message_history (data_manager c))\<rparr>,
          files := (files c)(''MessageHistory/'' @ k @ ''.json'' \<mapsto> JsonList ms)\<rparr>) rest"
  using assms
  by (auto simp: opened_def Let_def write_file_def split: option.splits if_splits)

lemma restore_history_append:
  assumes "list_all2 (\<lambda>x y. fst x = fst y \<and> opened L em' (snd x) = Some (snd y)) S h"
      and "distinct (map fst h)"
      and "fst ` set (message_history (data_manager c)) \<inter> fst ` set h = {}"
      and "\<forall>p. writable c p" and "encryption_manager c = em'"
  shows "\<exists>c'. restore_history L c S = (True, c') \<and>
           message_history (data_manager c') = message_history (data_manager c) @ h"
  using assms
proof (induction S h arbitrary: c rule: list_all2_induct)
  case Nil
  then show ?case by simp
next
  case (Cons x S y h)
  obtain k enc where x: "x = (k, enc)" by (cases x)
  obtain k' ms where y: "y = (k', ms)" by (cases y)
  from Cons.hyps(1) x y have kk: "k' = k" and o: "opened L em' enc = Some ms" by simp_all
  let ?c2 = "c\<lparr>data_manager :=
            (data_manager c)\<lparr>message_history :=
               AList.update k ms (message_history (data_manager c))\<rparr>,
          files := (files c)(''MessageHistory/'' @ k @ ''.json'' \<mapsto> JsonList ms)\<rparr>"
  from Cons.prems(2) y kk have "k \<notin> fst ` set (message_history (data_manager c))" by auto
  then have up: "AList.update k ms (message_history (data_manager c)) =
      message_history (data_manager c) @ [(k, ms)]" by (rule alist_update_fresh)
  have step: "restore_history L c (x # S) = restore_history L ?c2 S"
    unfolding x using o Cons.prems(3,4) by (intro restore_history_step) simp_all
  have "\<exists>c'. restore_history L ?c2 S = (True, c') \<and>
           message_history (data_manager c') = message_history (data_manager ?c2) @ h"
  proof (rule Cons.IH)
    show "distinct (map fst h)" using Cons.prems(1) by simp
    show "fst ` set (message_history (data_manager ?c2)) \<inter> fst ` set h = {}"
      using Cons.prems(1,2) y kk by (auto simp: up)
    show "\<forall>p. writable ?c2 p" using Cons.prems(3) by simp
    show "encryption_manager ?c2 = em'" using Cons.prems(4) by simp
  qed
  then obtain c' where "restore_history L ?c2 S = (True, c')"
    "message_history (data_manager c') = message_history (data_manager ?c2) @ h" by blast
  with step up y kk show ?case by simp
qed

lemma save_relations_fields:
  "data_manager (snd (save_relations c)) = data_manager c \<and>
   encryption_manager (snd (save_relations c)) = encryption_manager c \<and>
   writable (snd (save_relations c)) = writable c"
  by (simp add: save_relations_def write_file_def Let_def)

lemma save_sync_time_fields:
  "save_sync_time c t1 t2 = Some c' \<Longrightarrow>
     message_history (data_manager c') = message_history (data_manager c) \<and>
     friends (data_manager c') = friends (data_manager c) \<and>
     groups (data_manager c') = groups (data_manager c)"
  by (auto simp: save_sync_time_def write_file_def split: if_splits option.splits)

lemma restore_from_backup_True:
  assumes "restore_from_backup L c (Some b) now_default now_file now_mem = (True, c')"
  shows "\<exists>c2 c3. data_manager c2 =
             (data_manager c)\<lparr>friends := (case bk_friends b of Some fs \<Rightarrow> fs | None \<Rightarrow> []),
                               groups := (case bk_groups b of Some gs \<Rightarrow> gs | None \<Rightarrow> [])\<rparr> \<and>
           encryption_manager c2 = encryption_manager c \<and>
           restore_history L c2 (snapshot_history b) = (True, c3) \<and>
           message_history (data_manager c') = message_history (data_manager c3) \<and>
           friends (data_manager c') = friends (data_manager c3) \<and>
           groups (data_manager c') = groups (data_manager c3)"
proof -
  let ?c1 = "c\<lparr>data_manager :=
               (data_manager c)\<lparr>friends := (case bk_friends b of Some fs \<Rightarrow> fs | None \<Rightarrow> []),
                                 groups := (case bk_groups b of Some gs \<Rightarrow> gs | None \<Rightarrow> [])\<rparr>\<rparr>"
  let ?c2 = "snd (save_relations ?c1)"
  obtain ok c3 where r: "restore_history L ?c2 (snapshot_history b) = (ok, c3)" by fastforce
  let ?c4 = "c3\<lparr>data_manager := (data_manager c3)
                \<lparr>last_sync_time := (case bk_timestamp b of Some t \<Rightarrow> t | None \<Rightarrow> now_default)\<rparr>\<rparr>"
  from assms r have ok: "ok" and s: "save_sync_time ?c4 now_file now_mem = Some c'"
    by (auto simp: restore_from_backup_def Let_def snapshot_history_def
        split: if_splits option.splits)
  from save_sync_time_fields[OF s]
  have "message_history (data_manager c') = message_history (data_manager c3)"
    "friends (data_manager c') = friends (data_manager c3)"
    "groups (data_manager c') = groups (data_manager c3)" by simp_all
  moreover have "data_manager ?c2 =
             (data_manager c)\<lparr>friends := (case bk_friends b of Some fs \<Rightarrow> fs | None \<Rightarrow> []),
                               groups := (case bk_groups b of Some gs \<Rightarrow> gs | None \<Rightarrow> [])\<rparr>"
    "encryption_manager ?c2 = encryption_manager c"
    by (simp_all add: save_relations_fields)
  ultimately show ?thesis using r ok
    by (intro exI[of _ "?c2"] exI[of _ c3]) simp
qed

lemma restore_replaces_carried:
  assumes "restore_from_backup L c (Some b) now_default now_file now_mem = (True, c')"
      and "distinct (map fst (snapshot_history b))"
  shows "friends (data_manager c') = (case bk_friends b of Some fs \<Rightarrow> fs | None \<Rightarrow> []) \<and>
         groups (data_manager c') = (case bk_groups b of Some gs \<Rightarrow> gs | None \<Rightarrow> []) \<and>
         (\<forall>k. map_of (message_history (data_manager c')) k =
            (case map_of (snapshot_history b) k of
               None \<Rightarrow> map_of (message_history (data_manager c)) k
             | Some enc \<Rightarrow>
                 (case opened L (encryption_manager c) enc of
                    Some messages \<Rightarrow> Some messages
                  | None \<Rightarrow> map_of (message_history (data_manager c)) k)))"
proof -
  from restore_from_backup_True[OF assms(1)] obtain c2 c3 where
    d: "data_manager c2 =
             (data_manager c)\<lparr>friends := (case bk_friends b of Some fs \<Rightarrow> fs | None \<Rightarrow> []),
                               groups := (case bk_groups b of Some gs \<Rightarrow> gs | None \<Rightarrow> [])\<rparr>"
    and e: "encryption_manager c2 = encryption_manager c"
    and r: "restore_history L c2 (snapshot_history b) = (True, c3)"
    and m: "message_history (data_manager c') = message_history (data_manager c3)"
    and f: "friends (data_manager c') = friends (data_manager c3)"
    and g: "groups (data_manager c') = groups (data_manager c3)" by blast
  from restore_history_frame[OF r] d f g
  have 1: "friends (data_manager c') = (case bk_friends b of Some fs \<Rightarrow> fs | None \<Rightarrow> [])"
    and 2: "groups (data_manager c') = (case bk_groups b of Some gs \<Rightarrow> gs | None \<Rightarrow> [])"
    by simp_all
  have 3: "map_of (message_history (data_manager c')) k =
            (case map_of (snapshot_history b) k of
               None \<Rightarrow> map_of (message_history (data_manager c)) k
             | Some enc \<Rightarrow>
                 (case opened L (encryption_manager c) enc of
                    Some messages \<Rightarrow> Some messages
                  | None \<Rightarrow> map_of (message_history (data_manager c)) k))" for k
  proof -
    have mh2: "message_history (data_manager c2) = message_history (data_manager c)"
      by (simp add: d)
    from restore_history_lookup[OF r assms(2), of k, unfolded e mh2]
    show ?thesis unfolding m .
  qed
  from 1 2 3 show ?thesis by blast
qed

lemma push_then_restore_fresh:
  assumes lib: "codecs_ok L" "fernet_key_ok L (symmetric_key (encryption_manager c0))"
      and key: "symmetric_key (encryption_manager fresh) = symmetric_key (encryption_manager c0)"
      and empty: "message_history (data_manager fresh) = []"
      and wr: "\<forall>p. writable fresh p"
      and dist: "distinct (map fst (message_history (data_manager c0)))"
      and seal: "\<forall>p \<in> set (message_history (data_manager c0)).
                   sealable L (symmetric_key (encryption_manager c0)) (snd p)"
  shows "\<exists>c'. restore_from_backup L fresh (Some (prepare_backup_data L c0 now ivs))
                 now_default now_file now_mem = (True, c') \<and>
           friends (data_manager c') = friends (data_manager c0) \<and>
           groups (data_manager c') = groups (data_manager c0) \<and>
           message_history (data_manager c') = message_history (data_manager c0)"
proof -
  let ?b = "prepare_backup_data L c0 now ivs"
  let ?h0 = "message_history (data_manager c0)"
  let ?em' = "encryption_manager fresh"
  from seal_history_append[OF lib key seal dist, of "[]" ivs 0]
  obtain S where S: "seal_history L (encryption_manager c0) ivs 0 ?h0 [] = S"
    and SS: "list_all2 (\<lambda>x y. fst x = fst y \<and> opened L ?em' (snd x) = Some (snd y)) S ?h0"
    by auto
  have ne: "?b \<noteq> empty_backup" by (simp add: prepare_backup_data_def empty_backup_def)
  let ?c1 = "fresh\<lparr>data_manager :=
               (data_manager fresh)\<lparr>friends := friends (data_manager c0),
                                     groups := groups (data_manager c0)\<rparr>\<rparr>"
  let ?c2 = "snd (save_relations ?c1)"
  have c2: "message_history (data_manager ?c2) = []" "\<forall>p. writable ?c2 p"
    "encryption_manager ?c2 = ?em'" "friends (data_manager ?c2) = friends (data_manager c0)"
    "groups (data_manager ?c2) = groups (data_manager c0)"
    using empty wr by (simp_all add: save_relations_fields)
  have "\<exists>c3. restore_history L ?c2 S = (True, c3) \<and>
           message_history (data_manager c3) = message_history (data_manager ?c2) @ ?h0"
    by (rule restore_history_append[OF SS dist]) (simp_all add: c2)
  then obtain c3 where r: "restore_history L ?c2 S = (True, c3)"
    and m3: "message_history (data_manager c3) = ?h0" by (auto simp: c2(1))
  from restore_history_frame[OF r] c2
  have f3: "friends (data_manager c3) = friends (data_manager c0)"
    "groups (data_manager c3) = groups (data_manager c0)" "\<forall>p. writable c3 p" by simp_all
  let ?c4 = "c3\<lparr>data_manager := (data_manager c3)\<lparr>last_sync_time := now\<rparr>\<rparr>"
  obtain c5 where s: "save_sync_time ?c4 now_file now_mem = Some c5"
    using f3(3) by (simp add: save_sync_time_def write_file_def)
  from save_sync_time_fields[OF s] m3 f3
  have 5: "friends (data_manager c5) = friends (data_manager c0)"
    "groups (data_manager c5) = groups (data_manager c0)"
    "message_history (data_manager c5) = ?h0" by simp_all
  have "restore_from_backup L fresh (Some ?b) now_default now_file now_mem = (True, c5)"
    using ne r s by (simp add: restore_from_backup_def Let_def prepare_backup_data_def S)
  with 5 show ?thesis by blast
qed

lemma demo_snapshot_eval:
  "demo_snapshot =
     \<lparr>bk_friends = Some [''bob''], bk_groups = Some [],
      bk_message_history = Some [(''bob'', ''S-aliceYou: hi;'')],
      bk_timestamp = Some 100\<rparr>"
  by (simp add: demo_snapshot_def prepare_backup_data_def demo_client_def
      encrypt_data_for_storage_def demo_crypto_def alice_em_def demo_em_def demo_seal_def
      demo_dumps_def)

lemma demo_opened:
  "opened demo_crypto alice_em (''S-aliceYou: hi;'') = Some [''You: hi'']"
  by (simp add: opened_def decrypt_data_from_storage_def demo_crypto_def alice_em_def
      demo_em_def demo_open_def demo_loads_def)

lemma stale_restore:
  "fst (restore_from_backup demo_crypto stale_client (Some demo_snapshot) 200 200 200) = True"
  "message_history (data_manager
      (snd (restore_from_backup demo_crypto stale_client (Some demo_snapshot) 200 200 200))) =
     [(''carol'', [''old'']), (''bob'', [''You: hi''])]"
  by (simp_all add: restore_from_backup_def demo_snapshot_eval empty_backup_def stale_client_def
      demo_client_def save_relations_def write_file_def save_sync_time_def Let_def
      decrypt_data_from_storage_def demo_crypto_def alice_em_def demo_em_def demo_open_def
      demo_loads_def)

text \<open>
  C5 (amended). A successful restore sets the friends list and the groups list to the
  snapshot's, and for every conversation the snapshot carries whose sealed history opens,
  sets the local history to the snapshot's; every other conversation keeps its local
  history. On a vault with no local histories and the same local symmetric key, restoring
  a pushed snapshot gives back exactly the friends, groups and histories that were
  pushed.
\<close>

theorem restore_replaces_what_snapshot_carries:
  "(restore_from_backup L c (Some b) now_default now_file now_mem = (True, c') \<and>
    distinct (map fst (snapshot_history b)) \<longrightarrow>
      friends (data_manager c') = (case bk_friends b of Some fs \<Rightarrow> fs | None \<Rightarrow> []) \<and>
      groups (data_manager c') = (case bk_groups b of Some gs \<Rightarrow> gs | None \<Rightarrow> []) \<and>
      (\<forall>k. map_of (message_history (data_manager c')) k =
         (case map_of (snapshot_history b) k of
            None \<Rightarrow> map_of (message_history (data_manager c)) k
          | Some enc \<Rightarrow>
              (case opened L (encryption_manager c) enc of
                 Some messages \<Rightarrow> Some messages
               | None \<Rightarrow> map_of (message_history (data_manager c)) k)))) \<and>
   (codecs_ok L \<and> fernet_key_ok L (symmetric_key (encryption_manager c0)) \<and>
    symmetric_key (encryption_manager fresh) = symmetric_key (encryption_manager c0) \<and>
    message_history (data_manager fresh) = [] \<and> (\<forall>p. writable fresh p) \<and>
    distinct (map fst (message_history (data_manager c0))) \<and>
    (\<forall>p \<in> set (message_history (data_manager c0)).
        sealable L (symmetric_key (encryption_manager c0)) (snd p)) \<longrightarrow>
      (\<exists>c1. restore_from_backup L fresh (Some (prepare_backup_data L c0 now ivs))
                 now_default now_file now_mem = (True, c1) \<and>
           friends (data_manager c1) = friends (data_manager c0) \<and>
           groups (data_manager c1) = groups (data_manager c0) \<and>
           message_history (data_manager c1) = message_history (data_manager c0)))"
  using restore_replaces_carried[of L c b now_default now_file now_mem c']
    push_then_restore_fresh[of L c0 fresh now ivs now_default now_file now_mem]
  by blast

lemma demo_sealable: "sealable demo_crypto (symmetric_key alice_em) [''You: hi'']"
  by (simp add: sealable_def demo_crypto_def demo_dumps_def demo_loads_def demo_seal_def
      alice_em_def demo_em_def)

theorem restore_replaces_what_snapshot_carries_witness:
  "restore_from_backup demo_crypto stale_client (Some demo_snapshot) 200 200 200 =
     (True, snd (restore_from_backup demo_crypto stale_client (Some demo_snapshot) 200 200 200)) \<and>
   distinct (map fst (snapshot_history demo_snapshot)) \<and>
   friends (data_manager
     (snd (restore_from_backup demo_crypto stale_client (Some demo_snapshot) 200 200 200))) =
     [''bob''] \<and>
   map_of (message_history (data_manager
     (snd (restore_from_backup demo_crypto stale_client (Some demo_snapshot) 200 200 200)))) ''bob'' =
     Some [''You: hi''] \<and>
   map_of (message_history (data_manager
     (snd (restore_from_backup demo_crypto stale_client (Some demo_snapshot) 200 200 200)))) ''carol'' =
     Some [''old''] \<and>
   codecs_ok demo_crypto \<and> fernet_key_ok demo_crypto (symmetric_key (encryption_manager demo_client)) \<and>
   sealable demo_crypto (symmetric_key alice_em) [''You: hi''] \<and>
   (\<exists>c1. restore_from_backup demo_crypto fresh_client (Some demo_snapshot) 200 200 200 = (True, c1) \<and>
         friends (data_manager c1) = [''bob''] \<and> groups (data_manager c1) = [] \<and>
         message_history (data_manager c1) = [(''bob'', [''You: hi''])])"
proof -
  let ?r = "restore_from_backup demo_crypto stale_client (Some demo_snapshot) 200 200 200"
  have a: "?r = (True, snd ?r)" using stale_restore(1) by (simp add: prod_eq_iff)
  have d: "distinct (map fst (snapshot_history demo_snapshot))"
    by (simp add: snapshot_history_def demo_snapshot_eval)
  note T = restore_replaces_what_snapshot_carries[of demo_crypto stale_client demo_snapshot
      200 200 200 "snd ?r" demo_client fresh_client 100 "\<lambda>i. ''iv''"]
  from T a d have p1: "friends (data_manager (snd ?r)) =
        (case bk_friends demo_snapshot of Some fs \<Rightarrow> fs | None \<Rightarrow> [])"
    and p2: "\<forall>k. map_of (message_history (data_manager (snd ?r))) k =
         (case map_of (snapshot_history demo_snapshot) k of
            None \<Rightarrow> map_of (message_history (data_manager stale_client)) k
          | Some enc \<Rightarrow>
              (case opened demo_crypto (encryption_manager stale_client) enc of
                 Some messages \<Rightarrow> Some messages
               | None \<Rightarrow> map_of (message_history (data_manager stale_client)) k))"
    by blast+
  from p1 have 1: "friends (data_manager (snd ?r)) = [''bob'']" by (simp add: demo_snapshot_eval)
  have em: "encryption_manager stale_client = alice_em" by (simp add: stale_client_def demo_client_def)
  from p2 have 2: "map_of (message_history (data_manager (snd ?r))) ''bob'' = Some [''You: hi'']"
    by (simp add: snapshot_history_def demo_snapshot_eval em demo_opened)
  from p2 have 3: "map_of (message_history (data_manager (snd ?r))) ''carol'' = Some [''old'']"
    by (simp add: snapshot_history_def demo_snapshot_eval stale_client_def)
  have k: "fernet_key_ok demo_crypto (symmetric_key (encryption_manager demo_client))"
    by (rule demo_key_ok)
  have h: "codecs_ok demo_crypto \<and> fernet_key_ok demo_crypto (symmetric_key (encryption_manager demo_client)) \<and>
    symmetric_key (encryption_manager fresh_client) = symmetric_key (encryption_manager demo_client) \<and>
    message_history (data_manager fresh_client) = [] \<and> (\<forall>p. writable fresh_client p) \<and>
    distinct (map fst (message_history (data_manager demo_client))) \<and>
    (\<forall>p \<in> set (message_history (data_manager demo_client)).
        sealable demo_crypto (symmetric_key (encryption_manager demo_client)) (snd p))"
    using demo_codecs_ok k demo_sealable by (simp add: fresh_client_def demo_client_def)
  from T h have "\<exists>c1. restore_from_backup demo_crypto fresh_client
                 (Some (prepare_backup_data demo_crypto demo_client 100 (\<lambda>i. ''iv'')))
                 200 200 200 = (True, c1) \<and>
           friends (data_manager c1) = friends (data_manager demo_client) \<and>
           groups (data_manager c1) = groups (data_manager demo_client) \<and>
           message_history (data_manager c1) = message_history (data_manager demo_client)"
    by blast
  then have 4: "\<exists>c1. restore_from_backup demo_crypto fresh_client (Some demo_snapshot) 200 200 200 = (True, c1) \<and>
         friends (data_manager c1) = [''bob''] \<and> groups (data_manager c1) = [] \<and>
         message_history (data_manager c1) = [(''bob'', [''You: hi''])]"
    by (simp add: demo_snapshot_def demo_client_def)
  from a d 1 2 3 4 demo_codecs_ok k demo_sealable show ?thesis by blast
qed

lemma rekeyed_restore:
  "fst (restore_from_backup demo_crypto rekeyed_client (Some demo_snapshot) 200 200 200) = True"
  "message_history (data_manager
      (snd (restore_from_backup demo_crypto rekeyed_client (Some demo_snapshot) 200 200 200))) = []"
  by (simp_all add: restore_from_backup_def demo_snapshot_eval empty_backup_def rekeyed_client_def
      fresh_client_def demo_client_def save_relations_def write_file_def save_sync_time_def Let_def
      decrypt_data_from_storage_def demo_crypto_def demo_em_def demo_open_def)

text \<open>
  C5 as stated fails: a conversation the snapshot does not carry (carol) is still there
  after a successful restore; and on a fresh vault with a newly generated key the restore
  succeeds without restoring any history.
\<close>

theorem restore_full_replace_counterexample:
  "fst (restore_from_backup demo_crypto stale_client (Some demo_snapshot) 200 200 200) = True \<and>
   bk_message_history demo_snapshot = Some [(''bob'', ''S-aliceYou: hi;'')] \<and>
   message_history (data_manager
      (snd (restore_from_backup demo_crypto stale_client (Some demo_snapshot) 200 200 200))) =
     [(''carol'', [''old'']), (''bob'', [''You: hi''])] \<and>
   fst (restore_from_backup demo_crypto rekeyed_client (Some demo_snapshot) 200 200 200) = True \<and>
   message_history (data_manager
      (snd (restore_from_backup demo_crypto rekeyed_client (Some demo_snapshot) 200 200 200))) = []"
proof -
  have "bk_message_history demo_snapshot = Some [(''bob'', ''S-aliceYou: hi;'')]"
    by (simp add: demo_snapshot_eval)
  with stale_restore rekeyed_restore show ?thesis by blast
qed

section \<open>What moves the sync watermark\<close>








end
